theory Spec2Isabelle
  imports Complex_Main "HOL-Library.Sublist" "HOL-Library.Word"
begin

section \<open>JavaScript values\<close>

text \<open>
  The server (\<^verbatim>\<open>src/app.js\<close>, two variants in one file: the OpenAI server of lines 1-92
  and the Stability server of lines 92-417) handles JSON: request bodies parsed by
  \<^verbatim>\<open>express.json()\<close> and the replies of the image providers. A value of the program is a
  JSON value or \<^verbatim>\<open>undefined\<close>. An object is the list of its own properties, keys distinct.
  Strings are Isabelle strings: texts of 8-bit characters, read as the code units 0-255
  of a JavaScript string.
\<close>

datatype jsval =
    JUndefined
  | JNull
  | JBool bool
  | JNum rat
  | JStr string
  | JArr "jsval list"
  | JObj "(string \<times> jsval) list"

text \<open>
  A thrown value with its \<^verbatim>\<open>message\<close>. \<open>TypeError\<close> is what the engine raises on a read
  of a property of \<^verbatim>\<open>undefined\<close>/\<^verbatim>\<open>null\<close> or on a call of a non-function; its wording
  is V8's and nothing below depends on it. \<open>Error\<close> is every other error: the ones
  the source makes with \<^verbatim>\<open>new Error(...)\<close> and the rejections of library calls.
\<close>

datatype js_error = TypeError string | Error string

fun message_of :: "js_error \<Rightarrow> string" where
  "message_of (TypeError m) = m"
| "message_of (Error m) = m"

definition cannot_read :: "jsval \<Rightarrow> string \<Rightarrow> js_error" where
  "cannot_read v p =
     TypeError (''Cannot read properties of '' @ (if v = JNull then ''null'' else ''undefined'')
                @ '' (reading '' @ [CHR 0x27] @ p @ [CHR 0x27] @ '')'')"

definition not_a_function :: "string \<Rightarrow> js_error" where
  "not_a_function callee = TypeError (callee @ '' is not a function'')"

text \<open>\<^verbatim>\<open>!v\<close> is false, \<^verbatim>\<open>v || d\<close> is \<open>v\<close>: the truthy values.\<close>

fun truthy :: "jsval \<Rightarrow> bool" where
  "truthy JUndefined = False"
| "truthy JNull = False"
| "truthy (JBool b) = b"
| "truthy (JNum n) = (n \<noteq> 0)"
| "truthy (JStr s) = (s \<noteq> [])"
| "truthy (JArr xs) = True"
| "truthy (JObj kvs) = True"

text \<open>
  \<^verbatim>\<open>v.p\<close> for a data property \<open>p\<close>: a read on \<^verbatim>\<open>undefined\<close> or \<^verbatim>\<open>null\<close> throws, an object
  gives its own property or \<^verbatim>\<open>undefined\<close>, a string and an array have a \<^verbatim>\<open>length\<close>.
\<close>

fun get_prop :: "jsval \<Rightarrow> string \<Rightarrow> js_error + jsval" where
  "get_prop JUndefined p = Inl (cannot_read JUndefined p)"
| "get_prop JNull p = Inl (cannot_read JNull p)"
| "get_prop (JObj kvs) p = Inr (case map_of kvs p of None \<Rightarrow> JUndefined | Some v \<Rightarrow> v)"
| "get_prop (JStr s) p = Inr (if p = ''length'' then JNum (of_nat (length s)) else JUndefined)"
| "get_prop (JArr xs) p = Inr (if p = ''length'' then JNum (of_nat (length xs)) else JUndefined)"
| "get_prop (JBool b) p = Inr JUndefined"
| "get_prop (JNum n) p = Inr JUndefined"

section \<open>Strings\<close>

text \<open>
  \<^verbatim>\<open>String.prototype.toLowerCase\<close> on the code units 0-255: the letters A-Z and the
  Latin-1 capitals 0xC0-0xDE (without the multiplication sign 0xD7) move up by 32.
\<close>

definition lower_char :: "char \<Rightarrow> char" where
  "lower_char c =
     (let n = (of_char c :: nat)
      in if (65 \<le> n \<and> n \<le> 90) \<or> (192 \<le> n \<and> n \<le> 222 \<and> n \<noteq> 215)
         then char_of (n + 32) else c)"

definition toLowerCase :: "string \<Rightarrow> string" where
  "toLowerCase s = map lower_char s"

text \<open>\<^verbatim>\<open>s.includes(w)\<close>: \<open>w\<close> starts at some position of \<open>s\<close>.\<close>

fun includes_str :: "string \<Rightarrow> string \<Rightarrow> bool" where
  "includes_str [] w = (w = [])"
| "includes_str (c # cs) w = (prefix w (c # cs) \<or> includes_str cs w)"

text \<open>\<^verbatim>\<open>xs.join(sep)\<close> on an array of strings.\<close>

fun join :: "string list \<Rightarrow> string \<Rightarrow> string" where
  "join [] sep = []"
| "join [x] sep = x"
| "join (x # y # ys) sep = x @ sep @ join (y # ys) sep"

section \<open>The Moderation Filter\<close>

text \<open>
  \<^verbatim>\<open>moderateContent\<close> (lines 26-45 and, the same text, 206-225). The call
  \<^verbatim>\<open>prompt.toLowerCase()\<close> is the first thing it does: it throws a TypeError when the
  prompt is \<^verbatim>\<open>undefined\<close> or \<^verbatim>\<open>null\<close> (no such property can be read) and when it is
  any other value that is not a string (no such method).
\<close>

definition blacklist :: "string list" where
  "blacklist =
     [''celebrity'', ''celebrities'', ''famous'', ''star'',
      ''trademark'', ''logo'', ''brand'',
      ''disney'', ''marvel'', ''pokemon'',
      ''political'', ''politician'', ''president'']"

record moderation =
  allowed :: bool
  reason :: "string option"

fun call_toLowerCase :: "jsval \<Rightarrow> js_error + string" where
  "call_toLowerCase (JStr s) = Inr (toLowerCase s)"
| "call_toLowerCase JUndefined = Inl (cannot_read JUndefined ''toLowerCase'')"
| "call_toLowerCase JNull = Inl (cannot_read JNull ''toLowerCase'')"
| "call_toLowerCase v = Inl (not_a_function ''prompt.toLowerCase'')"

definition moderateContent :: "jsval \<Rightarrow> js_error + moderation" where
  "moderateContent prompt =
     (case call_toLowerCase prompt of
        Inl e \<Rightarrow> Inl e
      | Inr promptLower \<Rightarrow>
          (let matches = filter (\<lambda>word. includes_str promptLower word) blacklist
           in if length matches > 0
              then Inr \<lparr>allowed = False,
                        reason = Some (''Prompt contains restricted words: '' @ join matches '', '')\<rparr>
              else Inr \<lparr>allowed = True, reason = None\<rparr>))"


section \<open>Requests, responses and the world outside\<close>

type_synonym bytes = "8 word list"

text \<open>
  What a response carries: the value handed to \<^verbatim>\<open>res.json\<close>, a text handed to
  \<^verbatim>\<open>res.send\<close>, the bytes of a file, or a page that Express writes itself (no route).
\<close>

datatype content = Json jsval | Text string | File bytes | Page

record response =
  status :: nat
  content :: content

text \<open>
  A request as the handlers see it: the address Express derives for the client
  (\<^verbatim>\<open>req.ip\<close>), the place the router resolves method and path to, the body left by
  \<^verbatim>\<open>express.json()\<close>, and the time at which the request is processed, in milliseconds.
\<close>

datatype endpoint =
    Generate
  | SaveImage
  | TestStability
  | Health
  | RateLimitStatus
  | Uploads string
  | Elsewhere

record request =
  ip :: string
  target :: endpoint
  body :: jsval
  now :: nat

text \<open>
  The image providers. A \<^verbatim>\<open>fetch\<close> either rejects (network failure) or gives a response
  with its \<^verbatim>\<open>ok\<close> flag and what \<^verbatim>\<open>response.json()\<close> makes of the body: a rejection when
  the body is not JSON, the parsed value otherwise. The OpenAI client either throws or
  returns the parsed response.
\<close>

datatype json_body = Unparsable string | Parsed jsval

datatype fetch_reply = Rejects string | Responds bool json_body

datatype sdk_reply = Throws string | Returns jsval

record fetch_call =
  url :: string
  authorization :: string
  sent :: jsval

datatype upstream_call = Fetch fetch_call | ImagesGenerate jsval

text \<open>
  Everything the program reads from outside itself: the environment variables, the
  directory of the script, the providers, the builtins of the runtime that the model
  does not compute (the conversion of a value that is not a string to a string, the
  decoding of base64 text and the bytes of an array by \<^verbatim>\<open>Buffer.from\<close>, the random UUID),
  the disk (\<^verbatim>\<open>writeFileSync\<close> returns or throws with a message) and the static file
  middleware, which answers a request or passes it on.
\<close>

record world =
  STABILITY_API_KEY :: "string option"
  APP_URL :: "string option"
  PORT :: "string option"
  DISABLE_RATE_LIMIT :: "string option"
  dirname :: string
  fetch :: "fetch_call \<Rightarrow> fetch_reply"
  images_generate :: "jsval \<Rightarrow> sdk_reply"
  ToString :: "jsval \<Rightarrow> js_error + string"
  base64_decode :: "string \<Rightarrow> bytes"
  Buffer_from_array :: "jsval list \<Rightarrow> js_error + bytes"
  randomUUID :: string
  writeFileSync :: "string \<Rightarrow> bytes \<Rightarrow> string option"
  express_static :: "request \<Rightarrow> response option"

text \<open>
  What handling a request does: the response, the calls made to a provider and the
  files written.
\<close>

record outcome =
  reply :: response
  upstream :: "upstream_call list"
  written :: "(string \<times> bytes) list"

definition respond :: "response \<Rightarrow> outcome" where
  "respond r = \<lparr>reply = r, upstream = [], written = []\<rparr>"

text \<open>\<^verbatim>\<open>res.json(x)\<close> and \<^verbatim>\<open>res.status(n).json(x)\<close>.\<close>

definition json :: "jsval \<Rightarrow> response" where
  "json x = \<lparr>status = 200, content = Json x\<rparr>"

definition status_json :: "nat \<Rightarrow> jsval \<Rightarrow> response" where
  "status_json n x = \<lparr>status = n, content = Json x\<rparr>"

text \<open>
  The \<^verbatim>\<open>catch\<close> block of a handler:
  \<^verbatim>\<open>res.status(500).json({ error: label, message: error.message })\<close>.
\<close>

definition caught :: "string \<Rightarrow> js_error \<Rightarrow> response" where
  "caught label e =
     status_json 500 (JObj [(''error'', JStr label), (''message'', JStr (message_of e))])"

text \<open>
  A value in a template literal or as the argument of \<^verbatim>\<open>new Error\<close>: a string is itself,
  any other value is converted by the runtime.
\<close>

definition to_string :: "world \<Rightarrow> jsval \<Rightarrow> js_error + string" where
  "to_string w v = (case v of JStr s \<Rightarrow> Inr s | _ \<Rightarrow> ToString w v)"

definition or_else :: "jsval \<Rightarrow> jsval \<Rightarrow> jsval" where
  "or_else v d = (if truthy v then v else d)"

definition env_text :: "string option \<Rightarrow> string" where
  "env_text v = (case v of None \<Rightarrow> ''undefined'' | Some s \<Rightarrow> s)"

section \<open>The generation handlers\<close>

text \<open>
  The request sent to Stability (lines 288-303, and 230-245 with the fixed prompt and
  four samples).
\<close>

definition stability_call :: "world \<Rightarrow> jsval \<Rightarrow> rat \<Rightarrow> fetch_call" where
  "stability_call w prompt samples =
     \<lparr>url = ''https://api.stability.ai/v1/generation/stable-diffusion-xl-1024-v1-0/text-to-image'',
      authorization = ''Bearer '' @ env_text (STABILITY_API_KEY w),
      sent = JObj [(''text_prompts'', JArr [JObj [(''text'', prompt)]]),
                   (''cfg_scale'', JNum 7),
                   (''height'', JNum 1024),
                   (''width'', JNum 1024),
                   (''steps'', JNum 30),
                   (''samples'', JNum samples)]\<rparr>"

text \<open>
  The block under \<^verbatim>\<open>if (!response.ok)\<close> (lines 305-308, 247-250): it always throws, and
  this is the error it throws.
\<close>

definition api_error :: "world \<Rightarrow> json_body \<Rightarrow> string \<Rightarrow> js_error" where
  "api_error w b fallback =
     (case b of
        Unparsable m \<Rightarrow> Error m
      | Parsed error \<Rightarrow>
          (case get_prop error ''message'' of
             Inl e \<Rightarrow> e
           | Inr m \<Rightarrow>
               (case to_string w (or_else m (JStr fallback)) of
                  Inl e \<Rightarrow> e
                | Inr s \<Rightarrow> Error s)))"

text \<open>
  \<^verbatim>\<open>result.artifacts.map(...)\<close> (lines 316-318): each artifact gives an object whose
  \<^verbatim>\<open>imageUrl\<close> is the text \<^verbatim>\<open>data:image/png;base64,\<close> followed by \<^verbatim>\<open>artifact.base64\<close> as a
  string. The artifacts are visited in order and the first throw ends the visit.
\<close>

definition image_entry :: "string \<Rightarrow> jsval" where
  "image_entry payload = JObj [(''imageUrl'', JStr (''data:image/png;base64,'' @ payload))]"

fun data_uris :: "world \<Rightarrow> jsval list \<Rightarrow> js_error + jsval list" where
  "data_uris w [] = Inr []"
| "data_uris w (artifact # rest) =
     (case get_prop artifact ''base64'' of
        Inl e \<Rightarrow> Inl e
      | Inr b \<Rightarrow>
          (case to_string w b of
             Inl e \<Rightarrow> Inl e
           | Inr s \<Rightarrow>
               (case data_uris w rest of
                  Inl e \<Rightarrow> Inl e
                | Inr images \<Rightarrow> Inr (image_entry s # images))))"

fun call_map :: "world \<Rightarrow> jsval \<Rightarrow> js_error + jsval list" where
  "call_map w (JArr artifacts) = data_uris w artifacts"
| "call_map w JUndefined = Inl (cannot_read JUndefined ''map'')"
| "call_map w JNull = Inl (cannot_read JNull ''map'')"
| "call_map w v = Inl (not_a_function ''result.artifacts.map'')"

text \<open>Lines 305-323: from the outcome of the fetch to the response of a success.\<close>

definition read_images :: "world \<Rightarrow> fetch_reply \<Rightarrow> js_error + response" where
  "read_images w r =
     (case r of
        Rejects m \<Rightarrow> Inl (Error m)
      | Responds ok b \<Rightarrow>
          if \<not> ok then Inl (api_error w b ''Failed to generate image'')
          else
            (case b of
               Unparsable m \<Rightarrow> Inl (Error m)
             | Parsed result \<Rightarrow>
                 (case get_prop result ''artifacts'' of
                    Inl e \<Rightarrow> Inl e
                  | Inr artifacts \<Rightarrow>
                      if \<not> truthy artifacts \<or> get_prop artifacts ''length'' = Inr (JNum 0)
                      then Inl (Error ''No image generated'')
                      else
                        (case call_map w artifacts of
                           Inl e \<Rightarrow> Inl e
                         | Inr images \<Rightarrow>
                             Inr (json (JObj [(''success'', JBool True),
                                              (''images'', JArr images)]))))))"

text \<open>The answer to a prompt that the filter turns down (lines 54-59, 280-285).\<close>

definition content_not_allowed :: "moderation \<Rightarrow> response" where
  "content_not_allowed m =
     status_json 400
       (JObj [(''error'', JStr ''Content not allowed''),
              (''message'', (case reason m of None \<Rightarrow> JUndefined | Some r \<Rightarrow> JStr r))])"

text \<open>\<^verbatim>\<open>POST /generate\<close> of the Stability server (lines 274-331).\<close>

definition generate :: "world \<Rightarrow> jsval \<Rightarrow> outcome" where
  "generate w b =
     (case get_prop b ''prompt'' of
        Inl e \<Rightarrow> respond (caught ''Failed to generate image'' e)
      | Inr prompt \<Rightarrow>
          (case moderateContent prompt of
             Inl e \<Rightarrow> respond (caught ''Failed to generate image'' e)
           | Inr moderation \<Rightarrow>
               if \<not> allowed moderation then respond (content_not_allowed moderation)
               else
                 (let call = stability_call w prompt 1
                  in \<lparr>reply = (case read_images w (fetch w call) of
                                  Inl e \<Rightarrow> caught ''Failed to generate image'' e
                                | Inr r \<Rightarrow> r),
                      upstream = [Fetch call],
                      written = []\<rparr>)))"

text \<open>
  \<^verbatim>\<open>POST /generate\<close> of the OpenAI server (lines 48-82). \<^verbatim>\<open>response.data[0].url\<close> reads
  three properties in a row; \<open>get_first\<close> is the read of index 0.
\<close>

fun get_first :: "jsval \<Rightarrow> js_error + jsval" where
  "get_first JUndefined = Inl (cannot_read JUndefined ''0'')"
| "get_first JNull = Inl (cannot_read JNull ''0'')"
| "get_first (JArr xs) = Inr (case xs of [] \<Rightarrow> JUndefined | x # _ \<Rightarrow> x)"
| "get_first (JStr s) = Inr (case s of [] \<Rightarrow> JUndefined | c # _ \<Rightarrow> JStr [c])"
| "get_first (JObj kvs) = Inr (case map_of kvs ''0'' of None \<Rightarrow> JUndefined | Some v \<Rightarrow> v)"
| "get_first (JBool b) = Inr JUndefined"
| "get_first (JNum n) = Inr JUndefined"

definition dalle_call :: "jsval \<Rightarrow> jsval" where
  "dalle_call prompt =
     JObj [(''model'', JStr ''dall-e-3''),
           (''prompt'', prompt),
           (''n'', JNum 1),
           (''size'', JStr ''1024x1024''),
           (''quality'', JStr ''standard''),
           (''response_format'', JStr ''url'')]"

definition first_url :: "jsval \<Rightarrow> js_error + jsval" where
  "first_url response =
     (case get_prop response ''data'' of
        Inl e \<Rightarrow> Inl e
      | Inr d \<Rightarrow>
          (case get_first d of
             Inl e \<Rightarrow> Inl e
           | Inr first \<Rightarrow> get_prop first ''url''))"

definition generate_openai :: "world \<Rightarrow> jsval \<Rightarrow> outcome" where
  "generate_openai w b =
     (case get_prop b ''prompt'' of
        Inl e \<Rightarrow> respond (caught ''Failed to generate image'' e)
      | Inr prompt \<Rightarrow>
          (case moderateContent prompt of
             Inl e \<Rightarrow> respond (caught ''Failed to generate image'' e)
           | Inr moderation \<Rightarrow>
               if \<not> allowed moderation then respond (content_not_allowed moderation)
               else
                 (let call = dalle_call prompt
                  in \<lparr>reply = (case images_generate w call of
                                  Throws m \<Rightarrow> caught ''Failed to generate image'' (Error m)
                                | Returns response \<Rightarrow>
                                    (case first_url response of
                                       Inl e \<Rightarrow> caught ''Failed to generate image'' e
                                     | Inr u \<Rightarrow>
                                         json (JObj [(''success'', JBool True),
                                                     (''imageUrl'', u)]))),
                      upstream = [ImagesGenerate call],
                      written = []\<rparr>)))"

text \<open>\<^verbatim>\<open>GET /test-stability\<close> (lines 228-271).\<close>

definition test_stability :: "world \<Rightarrow> outcome" where
  "test_stability w =
     (let call = stability_call w (JStr ''A simple blue circle'') 4
      in \<lparr>reply =
             (case fetch w call of
                Rejects m \<Rightarrow> caught ''API test failed'' (Error m)
              | Responds ok b \<Rightarrow>
                  if \<not> ok then caught ''API test failed'' (api_error w b ''API request failed'')
                  else
                    (case b of
                       Unparsable m \<Rightarrow> caught ''API test failed'' (Error m)
                     | Parsed result \<Rightarrow>
                         (case get_prop result ''artifacts'' of
                            Inl e \<Rightarrow> caught ''API test failed'' e
                          | Inr artifacts \<Rightarrow>
                              json (JObj [(''success'', JBool True),
                                          (''message'', JStr ''API connection successful''),
                                          (''imageGenerated'', JBool (truthy artifacts))])))),
          upstream = [Fetch call],
          written = []\<rparr>)"

section \<open>The Image Store\<close>

text \<open>
  \<^verbatim>\<open>s.split(sep)\<close> for a separator that is not empty: the pieces of \<open>s\<close> between the
  occurrences of \<open>sep\<close>, found from the left, an occurrence starting where the one
  before it ended. \<open>piece\<close> is the text read since the last occurrence.
\<close>

function split_from :: "string \<Rightarrow> string \<Rightarrow> string \<Rightarrow> string list" where
  "split_from sep piece [] = [piece]"
| "split_from sep piece (c # cs) =
     (if prefix sep (c # cs)
      then piece # split_from sep [] (drop (length sep - 1) cs)
      else split_from sep (piece @ [c]) cs)"
  by pat_completeness auto
termination
  by (relation "measure (\<lambda>(sep, piece, s). length s)") auto

definition split_str :: "string \<Rightarrow> string \<Rightarrow> string list" where
  "split_str s sep = (if sep = [] then map (\<lambda>c. [c]) s else split_from sep [] s)"

text \<open>\<^verbatim>\<open>pieces[1]\<close>.\<close>

definition second :: "string list \<Rightarrow> jsval" where
  "second pieces = (case pieces of a # b # rest \<Rightarrow> JStr b | _ \<Rightarrow> JUndefined)"

text \<open>
  Lines 343-346. \<^verbatim>\<open>imageData.includes('base64,')\<close> is the method of a string or of an
  array (an array includes the marker when one of its elements is that string, and has
  no \<^verbatim>\<open>split\<close>); no other value has the method.
\<close>

definition marker :: string where
  "marker = ''base64,''"

fun extract_base64 :: "jsval \<Rightarrow> js_error + jsval" where
  "extract_base64 (JStr s) =
     Inr (if includes_str s marker then second (split_str s marker) else JStr s)"
| "extract_base64 (JArr xs) =
     (if JStr marker \<in> set xs then Inl (not_a_function ''imageData.split'')
      else Inr (JArr xs))"
| "extract_base64 JUndefined = Inl (cannot_read JUndefined ''includes'')"
| "extract_base64 JNull = Inl (cannot_read JNull ''includes'')"
| "extract_base64 v = Inl (not_a_function ''imageData.includes'')"

text \<open>\<^verbatim>\<open>Buffer.from(base64Data, 'base64')\<close>: the encoding matters for a string only.\<close>

fun buffer_from :: "world \<Rightarrow> jsval \<Rightarrow> js_error + bytes" where
  "buffer_from w (JStr s) = Inr (base64_decode w s)"
| "buffer_from w (JArr xs) = Buffer_from_array w xs"
| "buffer_from w v =
     Inl (TypeError ''The first argument must be of type string or an instance of Buffer, ArrayBuffer, or Array or an Array-like Object.'')"

text \<open>
  \<^verbatim>\<open>const PORT = process.env.PORT || 3000\<close> as it prints, the directory of the uploads
  (line 119) and the public base of the links (line 356).
\<close>

definition port_text :: "world \<Rightarrow> string" where
  "port_text w = (case PORT w of None \<Rightarrow> ''3000'' | Some p \<Rightarrow> if p = [] then ''3000'' else p)"

definition uploadsDir :: "world \<Rightarrow> string" where
  "uploadsDir w = dirname w @ ''/uploads''"

definition host :: "world \<Rightarrow> string" where
  "host w =
     (case APP_URL w of
        None \<Rightarrow> ''http://localhost:'' @ port_text w
      | Some u \<Rightarrow> if u = [] then ''http://localhost:'' @ port_text w else u)"

text \<open>\<^verbatim>\<open>POST /save-image\<close> (lines 334-370).\<close>

definition save_image :: "world \<Rightarrow> jsval \<Rightarrow> outcome" where
  "save_image w b =
     (case get_prop b ''imageData'' of
        Inl e \<Rightarrow> respond (caught ''Failed to save image'' e)
      | Inr imageData \<Rightarrow>
          if \<not> truthy imageData
          then respond (status_json 400 (JObj [(''error'', JStr ''No image data provided'')]))
          else
            (case extract_base64 imageData of
               Inl e \<Rightarrow> respond (caught ''Failed to save image'' e)
             | Inr base64Data \<Rightarrow>
                 (let filename = randomUUID w @ ''.png'';
                      filepath = uploadsDir w @ ''/'' @ filename
                  in case buffer_from w base64Data of
                       Inl e \<Rightarrow> respond (caught ''Failed to save image'' e)
                     | Inr buffer \<Rightarrow>
                         (case writeFileSync w filepath buffer of
                            Some m \<Rightarrow> respond (caught ''Failed to save image'' (Error m))
                          | None \<Rightarrow>
                              (let imageUrl = host w @ ''/uploads/'' @ filename
                               in \<lparr>reply = json (JObj [(''success'', JBool True),
                                                        (''imageUrl'', JStr imageUrl)]),
                                   upstream = [],
                                   written = [(filepath, buffer)]\<rparr>)))))"

section \<open>The other routes\<close>

text \<open>\<^verbatim>\<open>GET /health\<close> (lines 85-87, 373-375).\<close>

definition health :: outcome where
  "health = respond (json (JObj [(''status'', JStr ''healthy'')]))"

text \<open>Lines 133-137.\<close>

record rate_limits =
  daily :: nat
  hourly :: nat
  burst :: nat

definition RATE_LIMITS :: rate_limits where
  "RATE_LIMITS = \<lparr>daily = 500, hourly = 50, burst = 20\<rparr>"

text \<open>
  \<^verbatim>\<open>GET /rate-limit-status\<close> (lines 378-412). The handler reads the headers
  \<^verbatim>\<open>X-RateLimit-Remaining\<close>, \<^verbatim>\<open>X-RateLimit-Limit\<close> and \<^verbatim>\<open>X-RateLimit-Reset\<close> of its own
  response. No line of the program sets them and the limiters are made with
  \<^verbatim>\<open>legacyHeaders: false\<close>, so each read gives \<^verbatim>\<open>undefined\<close>; so does the read of
  \<^verbatim>\<open>windowMs\<close> on a limiter, which is a middleware function.
\<close>

definition rate_limit_status :: "request \<Rightarrow> outcome" where
  "rate_limit_status req =
     (let clientIP = ip req;
          dailyRemaining = JUndefined
      in respond (json (JObj
           [(''ip'', JStr clientIP),
            (''limits'', JObj
               [(''daily'', JObj [(''max'', JNum (of_nat (daily RATE_LIMITS))),
                                  (''remaining'', or_else dailyRemaining (JStr ''unknown'')),
                                  (''windowMs'', JUndefined)]),
                (''hourly'', JObj [(''max'', JNum (of_nat (hourly RATE_LIMITS))),
                                   (''windowMs'', JUndefined)]),
                (''burst'', JObj [(''max'', JNum (of_nat (burst RATE_LIMITS))),
                                  (''windowMs'', JUndefined)])]),
            (''resetTime'', JStr ''unknown'')])))"

text \<open>A request that no route takes: Express answers 404 with a page of its own.\<close>

definition no_route :: outcome where
  "no_route = respond \<lparr>status = 404, content = Page\<rparr>"

text \<open>The routes of the Stability server and of the OpenAI server, as registered.\<close>

definition routes :: "world \<Rightarrow> request \<Rightarrow> outcome" where
  "routes w req =
     (case target req of
        TestStability \<Rightarrow> test_stability w
      | Generate \<Rightarrow> generate w (body req)
      | SaveImage \<Rightarrow> save_image w (body req)
      | Health \<Rightarrow> health
      | RateLimitStatus \<Rightarrow> rate_limit_status req
      | Uploads name \<Rightarrow> no_route
      | Elsewhere \<Rightarrow> no_route)"

definition routes_openai :: "world \<Rightarrow> request \<Rightarrow> outcome" where
  "routes_openai w req =
     (case target req of
        Generate \<Rightarrow> generate_openai w (body req)
      | Health \<Rightarrow> health
      | _ \<Rightarrow> no_route)"

section \<open>The Rate Governor\<close>

text \<open>
  The options given to \<^verbatim>\<open>rateLimit\<close>: the length of the window in milliseconds, the
  ceiling (\<^verbatim>\<open>max\<close>) and what a rejection carries (\<^verbatim>\<open>message\<close>).
\<close>

record limiter =
  windowMs :: nat
  limit_max :: nat
  message :: content

text \<open>
  The limiter of the OpenAI server (lines 17-20). It names no message; the text below
  stands for the one the package sends by default.
\<close>

definition default_message :: content where
  "default_message = Text ''Too many requests, please try again later.''"

definition limiter :: limiter where
  "limiter = \<lparr>windowMs = 24 * 60 * 60 * 1000, limit_max = 25, message = default_message\<rparr>"

text \<open>The three limiters of the Stability server (lines 140-173).\<close>

definition dailyLimiter :: limiter where
  "dailyLimiter =
     \<lparr>windowMs = 24 * 60 * 60 * 1000,
      limit_max = daily RATE_LIMITS,
      message = Json (JObj
        [(''error'', JStr ''Daily limit exceeded''),
         (''message'',
          JStr ''You have reached your daily generation limit. Please try again tomorrow.'')])\<rparr>"

definition burstLimiter :: limiter where
  "burstLimiter =
     \<lparr>windowMs = 60 * 1000,
      limit_max = burst RATE_LIMITS,
      message = Json (JObj
        [(''error'', JStr ''Too many requests''),
         (''message'',
          JStr ''You are generating too quickly. Please wait a moment and try again.'')])\<rparr>"

definition hourlyLimiter :: limiter where
  "hourlyLimiter =
     \<lparr>windowMs = 60 * 60 * 1000,
      limit_max = hourly RATE_LIMITS,
      message = Json (JObj
        [(''error'', JStr ''Hourly limit exceeded''),
         (''message'',
          JStr ''You have reached your hourly generation limit. Please wait a bit.'')])\<rparr>"

text \<open>
  Modelled from the spec: the state that the middleware returned by \<^verbatim>\<open>rateLimit(options)\<close>
  keeps. The middleware belongs to the package express-rate-limit, which is not among
  the sources. The specification gives each limiter, per client identity, a count and a
  window-reset timestamp.
\<close>

record counter =
  totalHits :: nat
  resetTime :: nat

type_synonym store = "string \<Rightarrow> counter option"

text \<open>
  Modelled from the spec: the window a request falls in. The counter is created on the
  first request of the identity; the window resets, the count going back to zero, when
  the time has advanced past the window's start plus its duration, and the new window is
  anchored at the request that finds it so.
\<close>

definition opened :: "limiter \<Rightarrow> request \<Rightarrow> counter" where
  "opened L req = \<lparr>totalHits = 0, resetTime = now req + windowMs L\<rparr>"

definition current :: "limiter \<Rightarrow> store \<Rightarrow> request \<Rightarrow> counter" where
  "current L st req =
     (case st (ip req) of
        None \<Rightarrow> opened L req
      | Some c \<Rightarrow> if resetTime c < now req then opened L req else c)"

text \<open>
  Modelled from the spec: one request at one limiter. The count is incremented on each
  admitted or attempted request; a request that finds the count at the ceiling is
  rejected, with status 429 and the limiter's message, and nothing after the limiter
  runs for it.
\<close>

definition too_many :: "limiter \<Rightarrow> response" where
  "too_many L = \<lparr>status = 429, content = message L\<rparr>"

definition rateLimit :: "limiter \<Rightarrow> store \<Rightarrow> request \<Rightarrow> store \<times> response option" where
  "rateLimit L st req =
     (let c = current L st req;
          hits = totalHits c + 1
      in (st(ip req \<mapsto> c\<lparr>totalHits := hits\<rparr>),
          if hits > limit_max L then Some (too_many L) else None))"

text \<open>
  Lines 183-185: \<^verbatim>\<open>app.use(dailyLimiter); app.use(hourlyLimiter); app.use(burstLimiter)\<close>.
  Each limiter has a store of its own; a limiter that rejects ends the request, so the
  limiters after it do not see it.
\<close>

record stores =
  dailyStore :: store
  hourlyStore :: store
  burstStore :: store

definition governor :: "stores \<Rightarrow> request \<Rightarrow> stores \<times> response option" where
  "governor st req =
     (case rateLimit dailyLimiter (dailyStore st) req of
        (d, Some r) \<Rightarrow> (st\<lparr>dailyStore := d\<rparr>, Some r)
      | (d, None) \<Rightarrow>
          (case rateLimit hourlyLimiter (hourlyStore st) req of
             (h, Some r) \<Rightarrow> (st\<lparr>dailyStore := d, hourlyStore := h\<rparr>, Some r)
           | (h, None) \<Rightarrow>
               (case rateLimit burstLimiter (burstStore st) req of
                  (b, r) \<Rightarrow> (\<lparr>dailyStore = d, hourlyStore = h, burstStore = b\<rparr>, r))))"

section \<open>The two servers\<close>

text \<open>
  Line 130: \<^verbatim>\<open>app.use('/uploads', express.static(...))\<close>, mounted before the limiters. It
  sees the requests under \<^verbatim>\<open>/uploads\<close> only.
\<close>

definition static_reply :: "world \<Rightarrow> request \<Rightarrow> response option" where
  "static_reply w req = (case target req of Uploads name \<Rightarrow> express_static w req | _ \<Rightarrow> None)"

text \<open>
  The Stability server: the static files, then the limiters unless the environment has
  \<^verbatim>\<open>DISABLE_RATE_LIMIT=true\<close> (line 182), then the routes. The middleware of lines 192-203
  only writes to the console. \<^verbatim>\<open>express.json()\<close> and \<^verbatim>\<open>cors()\<close> stand in front of all this; a
  request of the model is one that they have passed on, with its body parsed.
\<close>

definition app :: "world \<Rightarrow> stores \<Rightarrow> request \<Rightarrow> stores \<times> outcome" where
  "app w st req =
     (case static_reply w req of
        Some r \<Rightarrow> (st, respond r)
      | None \<Rightarrow>
          if DISABLE_RATE_LIMIT w \<noteq> Some ''true''
          then (case governor st req of
                  (st', Some r) \<Rightarrow> (st', respond r)
                | (st', None) \<Rightarrow> (st', routes w req))
          else (st, routes w req))"

text \<open>The OpenAI server: its limiter (line 23), then its routes.\<close>

definition app_openai :: "world \<Rightarrow> store \<Rightarrow> request \<Rightarrow> store \<times> outcome" where
  "app_openai w st req =
     (case rateLimit limiter st req of
        (st', Some r) \<Rightarrow> (st', respond r)
      | (st', None) \<Rightarrow> (st', routes_openai w req))"

text \<open>
  A run of requests, one after the other: the requests a limiter lets through, the
  requests the three limiters of the Stability server let through, and the outcomes
  of the OpenAI server.
\<close>

fun admitted :: "limiter \<Rightarrow> store \<Rightarrow> request list \<Rightarrow> request list" where
  "admitted L st [] = []"
| "admitted L st (r # rs) =
     (case rateLimit L st r of
        (st', None) \<Rightarrow> r # admitted L st' rs
      | (st', Some rej) \<Rightarrow> admitted L st' rs)"

fun governed :: "stores \<Rightarrow> request list \<Rightarrow> request list" where
  "governed st [] = []"
| "governed st (r # rs) =
     (case governor st r of
        (st', None) \<Rightarrow> r # governed st' rs
      | (st', Some rej) \<Rightarrow> governed st' rs)"

fun serve_openai :: "world \<Rightarrow> store \<Rightarrow> request list \<Rightarrow> outcome list" where
  "serve_openai w st [] = []"
| "serve_openai w st (r # rs) =
     (case app_openai w st r of (st', out) \<Rightarrow> out # serve_openai w st' rs)"

section \<open>Notions used in the statements\<close>

text \<open>The requests of one client in a run.\<close>

definition of_client :: "string \<Rightarrow> request list \<Rightarrow> request list" where
  "of_client i rs = filter (\<lambda>r. ip r = i) rs"

text \<open>
  A request opens a window of a limiter when the limiter holds no counter for the client
  or the client's window has lapsed. A client is fresh for the Stability server when its
  request opens a window of each of the three limiters.
\<close>

definition opens :: "limiter \<Rightarrow> store \<Rightarrow> request \<Rightarrow> bool" where
  "opens L st r = (case st (ip r) of None \<Rightarrow> True | Some c \<Rightarrow> resetTime c < now r)"

definition fresh :: "stores \<Rightarrow> request \<Rightarrow> bool" where
  "fresh S r \<longleftrightarrow>
     opens dailyLimiter (dailyStore S) r \<and> opens hourlyLimiter (hourlyStore S) r
     \<and> opens burstLimiter (burstStore S) r"

text \<open>
  The count of the client's current window has reached the ceiling when the request
  arrives.
\<close>

definition exhausted :: "limiter \<Rightarrow> store \<Rightarrow> request \<Rightarrow> bool" where
  "exhausted L st r \<longleftrightarrow> limit_max L \<le> totalHits (current L st r)"

text \<open>
  A world to run the servers in: both providers answer with one image, nothing fails.
  Its \<open>base64_decode\<close> is a stand-in that gives the bytes of the text itself, so that a
  written file shows which text was decoded.
\<close>

definition sample_world :: world where
  "sample_world =
     \<lparr>STABILITY_API_KEY = Some ''sk-test'',
      APP_URL = Some ''https://pins.example.com'',
      PORT = None,
      DISABLE_RATE_LIMIT = None,
      dirname = ''/srv/server'',
      fetch = (\<lambda>c. Responds True
                 (Parsed (JObj [(''artifacts'', JArr [JObj [(''base64'', JStr ''iVBORw0KGgo='')]])]))),
      images_generate = (\<lambda>c. Returns
                 (JObj [(''data'', JArr [JObj [(''url'', JStr ''https://img.example.com/1.png'')]])])),
      ToString = (\<lambda>v. Inr ''undefined''),
      base64_decode = (\<lambda>s. map (\<lambda>c. of_nat (of_char c)) s),
      Buffer_from_array = (\<lambda>xs. Inr []),
      randomUUID = ''123e4567-e89b-42d3-a456-426614174000'',
      writeFileSync = (\<lambda>p b. None),
      express_static = (\<lambda>r. None)\<rparr>"

definition no_stores :: stores where
  "no_stores = \<lparr>dailyStore = Map.empty, hourlyStore = Map.empty, burstStore = Map.empty\<rparr>"

definition sample_request :: "endpoint \<Rightarrow> jsval \<Rightarrow> nat \<Rightarrow> request" where
  "sample_request e b t = \<lparr>ip = ''203.0.113.7'', target = e, body = b, now = t\<rparr>"

text \<open>Stores in which the sample client has used up its day and its hour.\<close>

definition spent_stores :: stores where
  "spent_stores =
     \<lparr>dailyStore = [''203.0.113.7'' \<mapsto> \<lparr>totalHits = 500, resetTime = 86400000\<rparr>],
      hourlyStore = [''203.0.113.7'' \<mapsto> \<lparr>totalHits = 50, resetTime = 86400000\<rparr>],
      burstStore = Map.empty\<rparr>"

text \<open>A world in which the static middleware finds a file.\<close>

definition static_world :: world where
  "static_world =
     sample_world\<lparr>express_static := (\<lambda>r. Some \<lparr>status = 200, content = File [137, 80, 78, 71]\<rparr>)\<rparr>"

text \<open>
  The outcome of a save in which the given text is decoded: the bytes in the file
  \<^verbatim>\<open><uuid>.png\<close> of the uploads directory, the link under the public base.
\<close>

definition stored :: "world \<Rightarrow> string \<Rightarrow> outcome" where
  "stored w text =
     \<lparr>reply = json (JObj [(''success'', JBool True),
                          (''imageUrl'', JStr (host w @ ''/uploads/'' @ randomUUID w @ ''.png''))]),
      upstream = [],
      written = [(dirname w @ ''/uploads/'' @ randomUUID w @ ''.png'', base64_decode w text)]\<rparr>"

section \<open>Properties of the Moderation Filter\<close>

lemma prefix_iff_take: "prefix w s \<longleftrightarrow> take (length w) s = w"
  by (metis append_eq_conv_conj prefix_def take_is_prefix)

lemma includes_str_iff:
  "includes_str s w \<longleftrightarrow> (\<exists>i \<in> {0..length s}. take (length w) (drop i s) = w)"
proof (induction s)
  case Nil
  show ?case by auto
next
  case (Cons c cs)
  have "(\<exists>i \<in> {0..length (c # cs)}. take (length w) (drop i (c # cs)) = w)
        \<longleftrightarrow> take (length w) (c # cs) = w
            \<or> (\<exists>j \<in> {0..length cs}. take (length w) (drop j cs) = w)"
  proof
    assume "\<exists>i \<in> {0..length (c # cs)}. take (length w) (drop i (c # cs)) = w"
    then obtain i where i: "i \<le> length (c # cs)" "take (length w) (drop i (c # cs)) = w"
      by auto
    show "take (length w) (c # cs) = w
          \<or> (\<exists>j \<in> {0..length cs}. take (length w) (drop j cs) = w)"
    proof (cases i)
      case 0
      with i show ?thesis by simp
    next
      case (Suc j)
      with i have "j \<in> {0..length cs}" "take (length w) (drop j cs) = w" by auto
      then show ?thesis by blast
    qed
  next
    assume "take (length w) (c # cs) = w
            \<or> (\<exists>j \<in> {0..length cs}. take (length w) (drop j cs) = w)"
    then show "\<exists>i \<in> {0..length (c # cs)}. take (length w) (drop i (c # cs)) = w"
    proof
      assume "take (length w) (c # cs) = w"
      then have "take (length w) (drop 0 (c # cs)) = w" by simp
      then show ?thesis by (metis atLeastAtMost_iff le0)
    next
      assume "\<exists>j \<in> {0..length cs}. take (length w) (drop j cs) = w"
      then obtain j where "j \<le> length cs" "take (length w) (drop j cs) = w" by auto
      then have "Suc j \<in> {0..length (c # cs)}"
        "take (length w) (drop (Suc j) (c # cs)) = w" by auto
      then show ?thesis by blast
    qed
  qed
  with Cons show ?case by (simp add: prefix_iff_take)
qed






text \<open>
  Claim C6 against the code. \<open>moderateContent\<close> allows the empty string, and throws a
  TypeError for a missing (\<^verbatim>\<open>undefined\<close>) and for a \<^verbatim>\<open>null\<close> prompt.
\<close>

theorem moderate_missing_prompt:
  "moderateContent JUndefined = Inl (cannot_read JUndefined ''toLowerCase'')
   \<and> moderateContent JNull = Inl (cannot_read JNull ''toLowerCase'')
   \<and> moderateContent (JStr []) = Inr \<lparr>allowed = True, reason = None\<rparr>"
  by (simp add: moderateContent_def toLowerCase_def blacklist_def)

section \<open>Properties of the Rate Governor\<close>

lemma rateLimit_other:
  "ip r \<noteq> i \<Longrightarrow> fst (rateLimit L st r) i = st i"
  by (simp add: rateLimit_def Let_def)

lemma rateLimit_inside:
  assumes "st (ip r) = Some c" "now r \<le> resetTime c"
  shows "rateLimit L st r =
           (st(ip r \<mapsto> c\<lparr>totalHits := Suc (totalHits c)\<rparr>),
            if limit_max L \<le> totalHits c then Some (too_many L) else None)"
  using assms by (auto simp add: rateLimit_def current_def Let_def)

lemma rateLimit_opening:
  assumes "opens L st r"
  shows "rateLimit L st r =
           (st(ip r \<mapsto> \<lparr>totalHits = 1, resetTime = now r + windowMs L\<rparr>),
            if limit_max L = 0 then Some (too_many L) else None)"
  using assms by (auto simp add: rateLimit_def current_def opens_def opened_def Let_def split: option.splits)

lemma admitted_inside:
  assumes "st i = Some c" "\<forall>r \<in> set rs. ip r = i \<longrightarrow> now r \<le> resetTime c"
  shows "filter (\<lambda>r. ip r = i) (admitted L st rs)
         = take (limit_max L - totalHits c) (filter (\<lambda>r. ip r = i) rs)"
  using assms
proof (induction rs arbitrary: st c)
  case Nil
  then show ?case by simp
next
  case (Cons r rs)
  show ?case
  proof (cases "ip r = i")
    case False
    obtain st' d where rl: "rateLimit L st r = (st', d)" by (cases "rateLimit L st r")
    have "st' i = Some c" using rateLimit_other [OF False, of L st] rl Cons.prems(1) by simp
    then have ih: "filter (\<lambda>r. ip r = i) (admitted L st' rs)
         = take (limit_max L - totalHits c) (filter (\<lambda>r. ip r = i) rs)"
      using Cons.IH Cons.prems(2) by simp
    show ?thesis using rl ih False by (cases d) simp_all
  next
    case True
    let ?c' = "c\<lparr>totalHits := Suc (totalHits c)\<rparr>"
    let ?st' = "st(ip r \<mapsto> ?c')"
    have inside: "now r \<le> resetTime c" using Cons.prems(2) True by simp
    have rl: "rateLimit L st r =
           (?st', if limit_max L \<le> totalHits c then Some (too_many L) else None)"
      using rateLimit_inside [of st r c L] Cons.prems(1) True inside by simp
    have "?st' i = Some ?c'" using True by simp
    moreover have "\<forall>x \<in> set rs. ip x = i \<longrightarrow> now x \<le> resetTime ?c'"
      using Cons.prems(2) by simp
    ultimately have ih: "filter (\<lambda>r. ip r = i) (admitted L ?st' rs)
         = take (limit_max L - totalHits ?c') (filter (\<lambda>r. ip r = i) rs)"
      by (rule Cons.IH)
    show ?thesis
    proof (cases "limit_max L \<le> totalHits c")
      case full: True
      then show ?thesis using rl ih True by simp
    next
      case room: False
      then have "limit_max L - totalHits c = Suc (limit_max L - Suc (totalHits c))" by simp
      then show ?thesis using rl ih True room by simp
    qed
  qed
qed

lemma admitted_window_raw:
  assumes "opens L st r0"
    and "\<forall>r \<in> set rs. ip r = ip r0 \<longrightarrow> now r \<le> now r0 + windowMs L"
  shows "filter (\<lambda>r. ip r = ip r0) (admitted L st (r0 # rs))
         = take (limit_max L) (filter (\<lambda>r. ip r = ip r0) (r0 # rs))"
proof -
  let ?c = "\<lparr>totalHits = 1, resetTime = now r0 + windowMs L\<rparr>"
  let ?st = "st(ip r0 \<mapsto> ?c)"
  have rl: "rateLimit L st r0 = (?st, if limit_max L = 0 then Some (too_many L) else None)"
    using rateLimit_opening [OF assms(1)] .
  have "?st (ip r0) = Some ?c" by simp
  moreover have "\<forall>r \<in> set rs. ip r = ip r0 \<longrightarrow> now r \<le> resetTime ?c"
    using assms(2) by simp
  ultimately have rest: "filter (\<lambda>r. ip r = ip r0) (admitted L ?st rs)
         = take (limit_max L - totalHits ?c) (filter (\<lambda>r. ip r = ip r0) rs)"
    by (rule admitted_inside)
  show ?thesis
  proof (cases "limit_max L")
    case 0
    then show ?thesis using rl rest by simp
  next
    case (Suc n)
    then show ?thesis using rl rest by simp
  qed
qed

lemma governed_stages:
  "governed st rs =
     admitted burstLimiter (burstStore st)
       (admitted hourlyLimiter (hourlyStore st)
          (admitted dailyLimiter (dailyStore st) rs))"
proof (induction rs arbitrary: st)
  case Nil
  show ?case by simp
next
  case (Cons r rs)
  obtain d x where D: "rateLimit dailyLimiter (dailyStore st) r = (d, x)" by (cases "rateLimit dailyLimiter (dailyStore st) r")
  obtain h y where H: "rateLimit hourlyLimiter (hourlyStore st) r = (h, y)" by (cases "rateLimit hourlyLimiter (hourlyStore st) r")
  obtain b z where B: "rateLimit burstLimiter (burstStore st) r = (b, z)" by (cases "rateLimit burstLimiter (burstStore st) r")
  show ?case
    using D H B Cons.IH
    by (cases x; cases y; cases z) (simp_all add: governor_def)
qed


lemma admitted_window:
  assumes "opens L st r0"
    and "\<forall>r \<in> set rs. ip r = ip r0 \<longrightarrow> now r \<le> now r0 + windowMs L"
  shows "of_client (ip r0) (admitted L st (r0 # rs))
         = take (limit_max L) (of_client (ip r0) (r0 # rs))"
  unfolding of_client_def using assms by (rule admitted_window_raw)

lemma admitted_subseq: "subseq (admitted L st rs) rs"
proof (induction rs arbitrary: st)
  case Nil
  show ?case by simp
next
  case (Cons r rs)
  obtain st' d where "rateLimit L st r = (st', d)" by (cases "rateLimit L st r")
  then show ?case using Cons.IH [of st'] by (cases d) auto
qed

lemma admitted_set: "set (admitted L st rs) \<subseteq> set rs"
proof
  fix x
  assume "x \<in> set (admitted L st rs)"
  with admitted_subseq [of L st rs] obtain y where "y \<in> set rs" "x = y"
    by (rule list_emb_set)
  then show "x \<in> set rs" by simp
qed

lemma admitted_head:
  assumes "opens L st r0" "0 < limit_max L"
  shows "\<exists>st'. admitted L st (r0 # rs) = r0 # admitted L st' rs"
  using rateLimit_opening [OF assms(1)] assms(2) by auto

lemma of_client_subseq: "subseq xs ys \<Longrightarrow> subseq (of_client i xs) (of_client i ys)"
  unfolding of_client_def by (rule subseq_filter)

lemma limits_values:
  "limit_max dailyLimiter = 500" "limit_max hourlyLimiter = 50" "limit_max burstLimiter = 20"
  "windowMs dailyLimiter = 86400000" "windowMs hourlyLimiter = 3600000"
  "windowMs burstLimiter = 60000"
  by (simp_all add: dailyLimiter_def hourlyLimiter_def burstLimiter_def RATE_LIMITS_def)

lemma governed_daily:
  assumes f: "fresh S r0"
    and w: "\<forall>r \<in> set rs. ip r = ip r0 \<longrightarrow> now r \<le> now r0 + windowMs dailyLimiter"
  shows "subseq (of_client (ip r0) (governed S (r0 # rs)))
           (take (limit_max dailyLimiter) (of_client (ip r0) (r0 # rs)))"
proof -
  let ?A1 = "admitted dailyLimiter (dailyStore S) (r0 # rs)"
  have "subseq (governed S (r0 # rs)) ?A1"
    unfolding governed_stages
    by (meson admitted_subseq subseq_order.order_trans)
  then have "subseq (of_client (ip r0) (governed S (r0 # rs))) (of_client (ip r0) ?A1)"
    by (rule of_client_subseq)
  moreover have "of_client (ip r0) ?A1 = take (limit_max dailyLimiter) (of_client (ip r0) (r0 # rs))"
    using f w by (intro admitted_window) (simp_all add: fresh_def)
  ultimately show ?thesis by simp
qed

lemma hourly_input:
  assumes f: "fresh S r0"
    and w: "\<forall>r \<in> set rs. ip r = ip r0 \<longrightarrow> now r \<le> now r0 + windowMs hourlyLimiter"
  shows "\<exists>A. admitted dailyLimiter (dailyStore S) (r0 # rs) = r0 # A \<and> set A \<subseteq> set rs
     \<and> of_client (ip r0) (admitted hourlyLimiter (hourlyStore S) (r0 # A))
         = take (limit_max hourlyLimiter) (of_client (ip r0) (r0 # rs))"
proof -
  obtain st' where h: "admitted dailyLimiter (dailyStore S) (r0 # rs)
                       = r0 # admitted dailyLimiter st' rs"
    using admitted_head [of dailyLimiter "dailyStore S" r0 rs] f
    by (auto simp add: fresh_def limits_values)
  let ?A = "admitted dailyLimiter st' rs"
  have sub: "set ?A \<subseteq> set rs" by (rule admitted_set)
  have wd: "\<forall>r \<in> set rs. ip r = ip r0 \<longrightarrow> now r \<le> now r0 + windowMs dailyLimiter"
    using w by (auto simp add: limits_values)
  have d: "of_client (ip r0) (r0 # ?A) = take (limit_max dailyLimiter) (of_client (ip r0) (r0 # rs))"
    using admitted_window [of dailyLimiter "dailyStore S" r0 rs] f wd h
    by (simp add: fresh_def)
  have "of_client (ip r0) (admitted hourlyLimiter (hourlyStore S) (r0 # ?A))
        = take (limit_max hourlyLimiter) (of_client (ip r0) (r0 # ?A))"
    using f w sub by (intro admitted_window) (auto simp add: fresh_def)
  also have "\<dots> = take (limit_max hourlyLimiter) (of_client (ip r0) (r0 # rs))"
    unfolding d by (simp add: limits_values)
  finally show ?thesis using h sub by blast
qed

lemma governed_hourly:
  assumes f: "fresh S r0"
    and w: "\<forall>r \<in> set rs. ip r = ip r0 \<longrightarrow> now r \<le> now r0 + windowMs hourlyLimiter"
  shows "subseq (of_client (ip r0) (governed S (r0 # rs)))
           (take (limit_max hourlyLimiter) (of_client (ip r0) (r0 # rs)))"
proof -
  obtain A where A: "admitted dailyLimiter (dailyStore S) (r0 # rs) = r0 # A"
    and h: "of_client (ip r0) (admitted hourlyLimiter (hourlyStore S) (r0 # A))
         = take (limit_max hourlyLimiter) (of_client (ip r0) (r0 # rs))"
    using hourly_input [OF f w] by blast
  have "subseq (governed S (r0 # rs)) (admitted hourlyLimiter (hourlyStore S) (r0 # A))"
    unfolding governed_stages A by (rule admitted_subseq)
  then have "subseq (of_client (ip r0) (governed S (r0 # rs)))
               (of_client (ip r0) (admitted hourlyLimiter (hourlyStore S) (r0 # A)))"
    by (rule of_client_subseq)
  then show ?thesis unfolding h .
qed

lemma governed_burst:
  assumes f: "fresh S r0"
    and w: "\<forall>r \<in> set rs. ip r = ip r0 \<longrightarrow> now r \<le> now r0 + windowMs burstLimiter"
  shows "of_client (ip r0) (governed S (r0 # rs))
           = take (limit_max burstLimiter) (of_client (ip r0) (r0 # rs))"
proof -
  have wh: "\<forall>r \<in> set rs. ip r = ip r0 \<longrightarrow> now r \<le> now r0 + windowMs hourlyLimiter"
    using w by (auto simp add: limits_values)
  obtain A where A: "admitted dailyLimiter (dailyStore S) (r0 # rs) = r0 # A"
    and subA: "set A \<subseteq> set rs"
    and h: "of_client (ip r0) (admitted hourlyLimiter (hourlyStore S) (r0 # A))
         = take (limit_max hourlyLimiter) (of_client (ip r0) (r0 # rs))"
    using hourly_input [OF f wh] by blast
  obtain st' where B: "admitted hourlyLimiter (hourlyStore S) (r0 # A)
                       = r0 # admitted hourlyLimiter st' A"
    using admitted_head [of hourlyLimiter "hourlyStore S" r0 A] f
    by (auto simp add: fresh_def limits_values)
  let ?B = "admitted hourlyLimiter st' A"
  have subB: "set ?B \<subseteq> set rs" using admitted_set [of hourlyLimiter st' A] subA by blast
  have "of_client (ip r0) (governed S (r0 # rs))
        = of_client (ip r0) (admitted burstLimiter (burstStore S) (r0 # ?B))"
    unfolding governed_stages A B ..
  also have "\<dots> = take (limit_max burstLimiter) (of_client (ip r0) (r0 # ?B))"
    using f w subB by (intro admitted_window) (auto simp add: fresh_def)
  also have "\<dots> = take (limit_max burstLimiter) (of_client (ip r0) (r0 # rs))"
    using h unfolding B by (simp add: limits_values)
  finally show ?thesis .
qed


lemma rateLimit_verdict:
  "snd (rateLimit L st req) = (if exhausted L st req then Some (too_many L) else None)"
  by (auto simp add: rateLimit_def exhausted_def Let_def)

lemma rejected_no_work:
  assumes "static_reply w req = None" "DISABLE_RATE_LIMIT w \<noteq> Some ''true''"
    "snd (governor S req) = Some rej"
  shows "snd (app w S req) = respond rej"
  using assms by (cases "governor S req") (simp add: app_def)

lemma rejected_no_work_openai:
  assumes "snd (rateLimit limiter st req) = Some rej"
  shows "snd (app_openai w st req) = respond rej"
  using assms by (cases "rateLimit limiter st req") (simp add: app_openai_def)

text \<open>
  Claim C1, as amended. For every client identity and each rate window, the number of
  requests admitted while the window is current never exceeds the window's ceiling, and a
  request that finds the count at the ceiling is rejected, with status 429, before any
  upstream work. From the request that opens a window, the window's own limiter admits
  exactly the first N requests of the client that reach it in the window (N the
  ceiling) and rejects every later one, the (N+1)-th first. On the Stability server the
  three limiters are stacked, so a request is served only when all three admit it, and
  the first N of a window are all served for the burst window only. In the terms of the
  model: (1) for every limiter \<open>L\<close> (that of the OpenAI server among them), when \<open>q\<close> opens
  a window and the later requests of its client come before the window lapses, the
  requests of the client that \<open>L\<close> lets through are exactly the first \<open>limit_max L\<close> of
  them; (2) on the Stability server the served requests are those that the burst
  limiter admits among those that the hourly limiter admits among those that the daily
  limiter admits; there the hourly limiter admits exactly the first 50 requests of a
  fresh client within the hour (and the daily limiter, by (1), the first 500 within the
  day); (3) the served requests of a fresh client within a window of any of the three
  are among the first N of that window, so at most N and none after the N-th; (4) within
  the burst window, whose ceiling is the lowest, they are exactly the first 20; (5) a
  request that a limiter rejects gets the limiter's response, with no call of a provider
  and no file written, on both servers; (6) a limiter rejects a request exactly when the
  count of the client's current window has reached the ceiling, with status 429 and the
  limiter's message.
\<close>

theorem rate_ceiling:
  "(opens L st q \<and> (\<forall>r \<in> set rs. ip r = ip q \<longrightarrow> now r \<le> now q + windowMs L) \<longrightarrow>
      of_client (ip q) (admitted L st (q # rs)) = take (limit_max L) (of_client (ip q) (q # rs)))
   \<and> governed S xs =
        admitted burstLimiter (burstStore S)
          (admitted hourlyLimiter (hourlyStore S) (admitted dailyLimiter (dailyStore S) xs))
   \<and> (fresh S q
       \<and> (\<forall>r \<in> set rs. ip r = ip q \<longrightarrow> now r \<le> now q + windowMs hourlyLimiter) \<longrightarrow>
      of_client (ip q)
        (admitted hourlyLimiter (hourlyStore S) (admitted dailyLimiter (dailyStore S) (q # rs)))
        = take (limit_max hourlyLimiter) (of_client (ip q) (q # rs)))
   \<and> (L \<in> {dailyLimiter, hourlyLimiter, burstLimiter} \<and> fresh S q
       \<and> (\<forall>r \<in> set rs. ip r = ip q \<longrightarrow> now r \<le> now q + windowMs L) \<longrightarrow>
      subseq (of_client (ip q) (governed S (q # rs)))
             (take (limit_max L) (of_client (ip q) (q # rs))))
   \<and> (fresh S q
       \<and> (\<forall>r \<in> set rs. ip r = ip q \<longrightarrow> now r \<le> now q + windowMs burstLimiter) \<longrightarrow>
      of_client (ip q) (governed S (q # rs))
        = take (limit_max burstLimiter) (of_client (ip q) (q # rs)))
   \<and> (static_reply w req = None \<and> DISABLE_RATE_LIMIT w \<noteq> Some ''true''
       \<and> snd (governor S req) = Some rej \<longrightarrow>
      reply (snd (app w S req)) = rej \<and> upstream (snd (app w S req)) = []
      \<and> written (snd (app w S req)) = [])
   \<and> (snd (rateLimit limiter st req) = Some rej \<longrightarrow>
      reply (snd (app_openai w st req)) = rej \<and> upstream (snd (app_openai w st req)) = []
      \<and> written (snd (app_openai w st req)) = [])
   \<and> snd (rateLimit L st req)
       = (if limit_max L \<le> totalHits (current L st req)
          then Some \<lparr>status = 429, content = message L\<rparr> else None)"
proof (intro conjI impI)
  assume "opens L st q \<and> (\<forall>r \<in> set rs. ip r = ip q \<longrightarrow> now r \<le> now q + windowMs L)"
  then show "of_client (ip q) (admitted L st (q # rs))
             = take (limit_max L) (of_client (ip q) (q # rs))"
    using admitted_window by blast
next
  show "governed S xs =
        admitted burstLimiter (burstStore S)
          (admitted hourlyLimiter (hourlyStore S) (admitted dailyLimiter (dailyStore S) xs))"
    by (rule governed_stages)
next
  assume "fresh S q
       \<and> (\<forall>r \<in> set rs. ip r = ip q \<longrightarrow> now r \<le> now q + windowMs hourlyLimiter)"
  then obtain A where "admitted dailyLimiter (dailyStore S) (q # rs) = q # A"
    "of_client (ip q) (admitted hourlyLimiter (hourlyStore S) (q # A))
       = take (limit_max hourlyLimiter) (of_client (ip q) (q # rs))"
    using hourly_input [of S q rs] by blast
  then show "of_client (ip q)
        (admitted hourlyLimiter (hourlyStore S) (admitted dailyLimiter (dailyStore S) (q # rs)))
        = take (limit_max hourlyLimiter) (of_client (ip q) (q # rs))"
    by simp
next
  assume a: "L \<in> {dailyLimiter, hourlyLimiter, burstLimiter} \<and> fresh S q
       \<and> (\<forall>r \<in> set rs. ip r = ip q \<longrightarrow> now r \<le> now q + windowMs L)"
  then consider "L = dailyLimiter" | "L = hourlyLimiter" | "L = burstLimiter" by blast
  then show "subseq (of_client (ip q) (governed S (q # rs)))
             (take (limit_max L) (of_client (ip q) (q # rs)))"
  proof cases
    case 1
    then show ?thesis using a governed_daily by blast
  next
    case 2
    then show ?thesis using a governed_hourly by blast
  next
    case 3
    then have "of_client (ip q) (governed S (q # rs))
        = take (limit_max L) (of_client (ip q) (q # rs))"
      using a governed_burst by blast
    then show ?thesis by simp
  qed
next
  assume "fresh S q
       \<and> (\<forall>r \<in> set rs. ip r = ip q \<longrightarrow> now r \<le> now q + windowMs burstLimiter)"
  then show "of_client (ip q) (governed S (q # rs))
        = take (limit_max burstLimiter) (of_client (ip q) (q # rs))"
    using governed_burst by blast
next
  assume a: "static_reply w req = None \<and> DISABLE_RATE_LIMIT w \<noteq> Some ''true''
       \<and> snd (governor S req) = Some rej"
  then have r: "snd (app w S req) = respond rej" using rejected_no_work by blast
  show "reply (snd (app w S req)) = rej" unfolding r by (simp add: respond_def)
  show "upstream (snd (app w S req)) = []" unfolding r by (simp add: respond_def)
  show "written (snd (app w S req)) = []" unfolding r by (simp add: respond_def)
next
  assume "snd (rateLimit limiter st req) = Some rej"
  then have r: "snd (app_openai w st req) = respond rej" by (rule rejected_no_work_openai)
  show "reply (snd (app_openai w st req)) = rej" unfolding r by (simp add: respond_def)
  show "upstream (snd (app_openai w st req)) = []" unfolding r by (simp add: respond_def)
  show "written (snd (app_openai w st req)) = []" unfolding r by (simp add: respond_def)
next
  show "snd (rateLimit L st req)
       = (if limit_max L \<le> totalHits (current L st req)
          then Some \<lparr>status = 429, content = message L\<rparr> else None)"
    by (simp add: rateLimit_verdict exhausted_def too_many_def)
qed

lemma sample_request_sel:
  "ip (sample_request e b t) = ''203.0.113.7''" "now (sample_request e b t) = t"
  "target (sample_request e b t) = e" "body (sample_request e b t) = b"
  by (simp_all add: sample_request_def)

theorem rate_ceiling_witness:
  "of_client ''203.0.113.7''
     (admitted burstLimiter Map.empty
        (sample_request Health (JObj []) 0 # replicate 20 (sample_request Health (JObj []) 59000)))
   = sample_request Health (JObj []) 0 # replicate 19 (sample_request Health (JObj []) 59000)
   \<and> of_client ''203.0.113.7''
     (governed no_stores
        (sample_request Health (JObj []) 0 # replicate 20 (sample_request Health (JObj []) 59000)))
   = sample_request Health (JObj []) 0 # replicate 19 (sample_request Health (JObj []) 59000)
   \<and> subseq (of_client ''203.0.113.7''
     (governed no_stores
        (sample_request Health (JObj []) 0 # replicate 50 (sample_request Health (JObj []) 3000000))))
     (sample_request Health (JObj []) 0 # replicate 49 (sample_request Health (JObj []) 3000000))
   \<and> of_client ''203.0.113.7''
     (admitted hourlyLimiter (hourlyStore no_stores)
        (admitted dailyLimiter (dailyStore no_stores)
           (sample_request Health (JObj []) 0
            # replicate 50 (sample_request Health (JObj []) 3000000))))
     = sample_request Health (JObj []) 0 # replicate 49 (sample_request Health (JObj []) 3000000)
   \<and> reply (snd (app sample_world spent_stores (sample_request Generate (JObj []) 1000)))
       = too_many dailyLimiter
   \<and> upstream (snd (app sample_world spent_stores (sample_request Generate (JObj []) 1000))) = []
   \<and> reply (snd (app_openai sample_world
                 [''203.0.113.7'' \<mapsto> \<lparr>totalHits = 25, resetTime = 86400000\<rparr>]
                 (sample_request Generate (JObj []) 1000)))
       = too_many limiter"
proof -
  let ?r0 = "sample_request Health (JObj []) 0"
  let ?r1 = "sample_request Health (JObj []) 59000"
  let ?r2 = "sample_request Health (JObj []) 3000000"
  let ?g = "sample_request Generate (JObj []) 1000"
  let ?st = "[''203.0.113.7'' \<mapsto> \<lparr>totalHits = 25, resetTime = 86400000\<rparr>]"
  have f: "fresh no_stores ?r0"
    by (simp add: fresh_def opens_def no_stores_def)
  have o: "opens burstLimiter Map.empty ?r0"
    by (simp add: opens_def)
  have w1: "\<forall>r \<in> set (replicate 20 ?r1). ip r = ip ?r0 \<longrightarrow> now r \<le> now ?r0 + windowMs burstLimiter"
    by (simp add: sample_request_sel limits_values)
  have w2: "\<forall>r \<in> set (replicate 50 ?r2). ip r = ip ?r0 \<longrightarrow> now r \<le> now ?r0 + windowMs hourlyLimiter"
    by (simp add: sample_request_sel limits_values)
  have g: "snd (governor spent_stores ?g) = Some (too_many dailyLimiter)"
    by (simp add: governor_def rateLimit_def current_def spent_stores_def sample_request_sel
        limits_values Let_def)
  have s: "static_reply sample_world ?g = None"
    by (simp add: static_reply_def sample_request_sel)
  have d: "DISABLE_RATE_LIMIT sample_world \<noteq> Some ''true''"
    by (simp add: sample_world_def)
  have l: "snd (rateLimit limiter ?st ?g) = Some (too_many limiter)"
    by (simp add: rateLimit_def current_def sample_request_sel limiter_def Let_def)
  note T = rate_ceiling [where L = burstLimiter and st = Map.empty and q = ?r0
      and rs = "replicate 20 ?r1" and S = no_stores and w = sample_world and req = ?g
      and rej = "too_many dailyLimiter"]
  note U = rate_ceiling [where L = hourlyLimiter and S = no_stores and q = ?r0
      and rs = "replicate 50 ?r2" and w = sample_world and req = ?g and st = ?st
      and rej = "too_many limiter"]
  note V = rate_ceiling [where S = spent_stores and w = sample_world and req = ?g
      and rej = "too_many dailyLimiter"]
  have a1: "of_client (ip ?r0) (admitted burstLimiter Map.empty (?r0 # replicate 20 ?r1))
            = take (limit_max burstLimiter) (of_client (ip ?r0) (?r0 # replicate 20 ?r1))"
    using T o w1 by blast
  have a2: "of_client (ip ?r0) (governed no_stores (?r0 # replicate 20 ?r1))
            = take (limit_max burstLimiter) (of_client (ip ?r0) (?r0 # replicate 20 ?r1))"
    using T f w1 by blast
  have a3: "subseq (of_client (ip ?r0) (governed no_stores (?r0 # replicate 50 ?r2)))
             (take (limit_max hourlyLimiter) (of_client (ip ?r0) (?r0 # replicate 50 ?r2)))"
    using U f w2 by blast
  have a6: "of_client (ip ?r0)
              (admitted hourlyLimiter (hourlyStore no_stores)
                 (admitted dailyLimiter (dailyStore no_stores) (?r0 # replicate 50 ?r2)))
            = take (limit_max hourlyLimiter) (of_client (ip ?r0) (?r0 # replicate 50 ?r2))"
    using U f w2 by blast
  have a4: "reply (snd (app sample_world spent_stores ?g)) = too_many dailyLimiter
            \<and> upstream (snd (app sample_world spent_stores ?g)) = []"
    using V s d g by blast
  have a5: "reply (snd (app_openai sample_world ?st ?g)) = too_many limiter"
    using U l by blast
  have t1: "take (limit_max burstLimiter) (of_client (ip ?r0) (?r0 # replicate 20 ?r1))
            = ?r0 # replicate 19 ?r1"
    by (simp add: of_client_def sample_request_sel limits_values)
  have t2: "take (limit_max hourlyLimiter) (of_client (ip ?r0) (?r0 # replicate 50 ?r2))
            = ?r0 # replicate 49 ?r2"
    by (simp add: of_client_def sample_request_sel limits_values)
  show ?thesis
    using a1 a2 a3 a4 a5 a6 unfolding t1 t2 by (simp add: sample_request_sel)
qed


text \<open>
  Claim C1 as stated fails for the hourly window of the Stability server: of fifty
  requests of a fresh client, all inside its first hour (and inside its first minute),
  only the first twenty are served, because the burst limiter rejects the others; the
  claim has the first fifty admitted.
\<close>

theorem rate_ceiling_counterexample:
  "limit_max hourlyLimiter = 50
   \<and> (1000::nat) \<le> 0 + windowMs hourlyLimiter
   \<and> fresh no_stores (sample_request Health (JObj []) 0)
   \<and> of_client ''203.0.113.7''
       (governed no_stores
          (sample_request Health (JObj []) 0 # replicate 49 (sample_request Health (JObj []) 1000)))
     = sample_request Health (JObj []) 0 # replicate 19 (sample_request Health (JObj []) 1000)"
proof -
  let ?q = "sample_request Health (JObj []) 0"
  let ?r = "sample_request Health (JObj []) 1000"
  have f: "fresh no_stores ?q" by (simp add: fresh_def opens_def no_stores_def)
  have w: "\<forall>r \<in> set (replicate 49 ?r). ip r = ip ?q \<longrightarrow> now r \<le> now ?q + windowMs burstLimiter"
    by (simp add: sample_request_sel limits_values)
  have "of_client (ip ?q) (governed no_stores (?q # replicate 49 ?r))
        = take (limit_max burstLimiter) (of_client (ip ?q) (?q # replicate 49 ?r))"
    using f w by (rule governed_burst)
  then have g: "of_client ''203.0.113.7'' (governed no_stores (?q # replicate 49 ?r))
        = ?q # replicate 19 ?r"
    by (simp add: of_client_def sample_request_sel limits_values)
  from f g show ?thesis by (simp add: limits_values)
qed


section \<open>The order of the limiters\<close>

lemma governor_verdict:
  "snd (governor S req) =
     (if exhausted dailyLimiter (dailyStore S) req then Some (too_many dailyLimiter)
      else if exhausted hourlyLimiter (hourlyStore S) req then Some (too_many hourlyLimiter)
      else if exhausted burstLimiter (burstStore S) req then Some (too_many burstLimiter)
      else None)"
proof -
  obtain d x where D: "rateLimit dailyLimiter (dailyStore S) req = (d, x)"
    by (cases "rateLimit dailyLimiter (dailyStore S) req")
  obtain h y where H: "rateLimit hourlyLimiter (hourlyStore S) req = (h, y)"
    by (cases "rateLimit hourlyLimiter (hourlyStore S) req")
  obtain b z where B: "rateLimit burstLimiter (burstStore S) req = (b, z)"
    by (cases "rateLimit burstLimiter (burstStore S) req")
  have x: "x = (if exhausted dailyLimiter (dailyStore S) req then Some (too_many dailyLimiter) else None)"
    using rateLimit_verdict [of dailyLimiter "dailyStore S" req] D by simp
  have y: "y = (if exhausted hourlyLimiter (hourlyStore S) req then Some (too_many hourlyLimiter) else None)"
    using rateLimit_verdict [of hourlyLimiter "hourlyStore S" req] H by simp
  have z: "z = (if exhausted burstLimiter (burstStore S) req then Some (too_many burstLimiter) else None)"
    using rateLimit_verdict [of burstLimiter "burstStore S" req] B by simp
  show ?thesis
    using D H B x y z by (simp add: governor_def)
qed

lemma app_governed:
  assumes "static_reply w req = None" "DISABLE_RATE_LIMIT w \<noteq> Some ''true''"
  shows "snd (app w S req) =
           (case snd (governor S req) of Some r \<Rightarrow> respond r | None \<Rightarrow> routes w req)"
  using assms by (cases "governor S req") (auto simp add: app_def split: option.splits)

text \<open>
  Claim C3, as amended. The Stability server has three limiters per client identity, burst
  (one minute, ceiling 20), hourly (one hour, ceiling 50) and daily (24 hours, ceiling
  500). Unless rate limiting is disabled, every request that the static file middleware
  does not answer meets them before any route, whatever the route, and is rejected by the
  first exhausted one in the order daily, hourly, burst, with that limiter's message; a
  request passes to the routes when none is exhausted. A file under \<^verbatim>\<open>/uploads\<close> that the
  static middleware finds is sent without any limiter being consulted. The OpenAI server
  has a single limiter (24 hours, ceiling 25) in front of all its routes.
\<close>

theorem three_windows:
  "windowMs burstLimiter = 60 * 1000 \<and> limit_max burstLimiter = 20
   \<and> windowMs hourlyLimiter = 60 * 60 * 1000 \<and> limit_max hourlyLimiter = 50
   \<and> windowMs dailyLimiter = 24 * 60 * 60 * 1000 \<and> limit_max dailyLimiter = 500
   \<and> (static_reply w req = None \<and> DISABLE_RATE_LIMIT w \<noteq> Some ''true'' \<longrightarrow>
        snd (app w S req) =
          (if exhausted dailyLimiter (dailyStore S) req then respond (too_many dailyLimiter)
           else if exhausted hourlyLimiter (hourlyStore S) req then respond (too_many hourlyLimiter)
           else if exhausted burstLimiter (burstStore S) req then respond (too_many burstLimiter)
           else routes w req))
   \<and> (static_reply w req = Some found \<longrightarrow> app w S req = (S, respond found))
   \<and> windowMs limiter = 24 * 60 * 60 * 1000 \<and> limit_max limiter = 25
   \<and> snd (app_openai w st req) =
        (if exhausted limiter st req then respond (too_many limiter) else routes_openai w req)"
proof -
  have a: "static_reply w req = None \<and> DISABLE_RATE_LIMIT w \<noteq> Some ''true'' \<longrightarrow>
        snd (app w S req) =
          (if exhausted dailyLimiter (dailyStore S) req then respond (too_many dailyLimiter)
           else if exhausted hourlyLimiter (hourlyStore S) req then respond (too_many hourlyLimiter)
           else if exhausted burstLimiter (burstStore S) req then respond (too_many burstLimiter)
           else routes w req)"
    by (simp add: app_governed governor_verdict)
  have b: "static_reply w req = Some found \<longrightarrow> app w S req = (S, respond found)"
    by (simp add: app_def)
  have c: "snd (app_openai w st req) =
        (if exhausted limiter st req then respond (too_many limiter) else routes_openai w req)"
    using rateLimit_verdict [of limiter st req]
    by (cases "rateLimit limiter st req") (auto simp add: app_openai_def)
  have d: "windowMs limiter = 24 * 60 * 60 * 1000 \<and> limit_max limiter = 25"
    by (simp add: limiter_def)
  show ?thesis using a b c d by (simp add: limits_values)
qed


lemma serve_openai_room:
  assumes "st (ip r) = Some c" "now r \<le> resetTime c" "totalHits c + n \<le> limit_max limiter"
  shows "serve_openai w st (replicate n r) = replicate n (routes_openai w r)"
  using assms
proof (induction n arbitrary: st c)
  case 0
  show ?case by simp
next
  case (Suc n)
  let ?c = "c\<lparr>totalHits := Suc (totalHits c)\<rparr>"
  let ?st = "st(ip r \<mapsto> ?c)"
  have rl: "rateLimit limiter st r = (?st, None)"
    using rateLimit_inside [of st r c limiter] Suc.prems by simp
  have "serve_openai w ?st (replicate n r) = replicate n (routes_openai w r)"
    using Suc.prems by (intro Suc.IH [of ?st ?c]) simp_all
  then show ?case using rl by (simp add: app_openai_def)
qed

lemma serve_openai_fresh:
  assumes "st (ip r) = None" "Suc n \<le> limit_max limiter"
  shows "serve_openai w st (replicate (Suc n) r) = replicate (Suc n) (routes_openai w r)"
proof -
  let ?c = "\<lparr>totalHits = 1, resetTime = now r + windowMs limiter\<rparr>"
  let ?st = "st(ip r \<mapsto> ?c)"
  have "opens limiter st r" using assms(1) by (simp add: opens_def)
  then have rl: "rateLimit limiter st r = (?st, None)"
    using rateLimit_opening [of limiter st r] assms(2) by simp
  have "serve_openai w ?st (replicate n r) = replicate n (routes_openai w r)"
    using assms(2) by (intro serve_openai_room [of ?st r ?c]) simp_all
  then show ?thesis using rl by (simp add: app_openai_def)
qed

text \<open>
  Claim C3 as stated fails twice. On the Stability server a client whose daily window is
  exhausted still gets a stored file: the static middleware is mounted before the
  limiters. On the OpenAI server the twenty-first request of a client within one
  millisecond is served: that server has no burst window, and its daily ceiling is 25.
\<close>

theorem three_windows_counterexample:
  "exhausted dailyLimiter (dailyStore spent_stores) (sample_request (Uploads ''a.png'') (JObj []) 1000)
   \<and> DISABLE_RATE_LIMIT static_world \<noteq> Some ''true''
   \<and> reply (snd (app static_world spent_stores (sample_request (Uploads ''a.png'') (JObj []) 1000)))
       = \<lparr>status = 200, content = File [137, 80, 78, 71]\<rparr>
   \<and> serve_openai sample_world Map.empty (replicate 21 (sample_request Health (JObj []) 0))
       = replicate 21 (respond (json (JObj [(''status'', JStr ''healthy'')])))"
proof -
  let ?u = "sample_request (Uploads ''a.png'') (JObj []) 1000"
  let ?h = "sample_request Health (JObj []) 0"
  have a: "exhausted dailyLimiter (dailyStore spent_stores) ?u"
    by (simp add: exhausted_def current_def spent_stores_def sample_request_sel limits_values)
  have b: "DISABLE_RATE_LIMIT static_world \<noteq> Some ''true''"
    by (simp add: static_world_def sample_world_def)
  have c: "reply (snd (app static_world spent_stores ?u))
           = \<lparr>status = 200, content = File [137, 80, 78, 71]\<rparr>"
    by (simp add: app_def static_reply_def static_world_def sample_request_sel respond_def)
  have "serve_openai sample_world Map.empty (replicate (Suc 20) ?h)
        = replicate (Suc 20) (routes_openai sample_world ?h)"
    by (rule serve_openai_fresh) (simp_all add: limiter_def)
  moreover have "routes_openai sample_world ?h = respond (json (JObj [(''status'', JStr ''healthy'')]))"
    by (simp add: routes_openai_def sample_request_sel health_def)
  moreover have "replicate 21 ?h = replicate (Suc 20) ?h" by simp
  moreover have "replicate 21 (respond (json (JObj [(''status'', JStr ''healthy'')])))
     = replicate (Suc 20) (respond (json (JObj [(''status'', JStr ''healthy'')])))" by simp
  ultimately have d: "serve_openai sample_world Map.empty (replicate 21 ?h)
       = replicate 21 (respond (json (JObj [(''status'', JStr ''healthy'')])))"
    by (simp only:)
  from a b c d show ?thesis by blast
qed

theorem three_windows_witness:
  "snd (app sample_world spent_stores (sample_request Generate (JObj []) 1000))
     = respond (too_many dailyLimiter)
   \<and> too_many dailyLimiter
       = \<lparr>status = 429,
          content = Json (JObj [(''error'', JStr ''Daily limit exceeded''),
            (''message'',
             JStr ''You have reached your daily generation limit. Please try again tomorrow.'')])\<rparr>
   \<and> snd (app sample_world no_stores (sample_request Health (JObj []) 1000)) = health
   \<and> app static_world spent_stores (sample_request (Uploads ''a.png'') (JObj []) 1000)
       = (spent_stores, respond \<lparr>status = 200, content = File [137, 80, 78, 71]\<rparr>)"
proof -
  let ?g = "sample_request Generate (JObj []) 1000"
  let ?h = "sample_request Health (JObj []) 1000"
  let ?u = "sample_request (Uploads ''a.png'') (JObj []) 1000"
  let ?f = "\<lparr>status = 200, content = File [137, 80, 78, 71]\<rparr>"
  have s1: "static_reply sample_world ?g = None" "static_reply sample_world ?h = None"
    by (simp_all add: static_reply_def sample_request_sel)
  have d: "DISABLE_RATE_LIMIT sample_world \<noteq> Some ''true''"
    by (simp add: sample_world_def)
  have e1: "exhausted dailyLimiter (dailyStore spent_stores) ?g"
    by (simp add: exhausted_def current_def spent_stores_def sample_request_sel limits_values)
  have e2: "\<not> exhausted dailyLimiter (dailyStore no_stores) ?h"
    "\<not> exhausted hourlyLimiter (hourlyStore no_stores) ?h"
    "\<not> exhausted burstLimiter (burstStore no_stores) ?h"
    by (simp_all add: exhausted_def current_def opened_def no_stores_def limits_values)
  have s2: "static_reply static_world ?u = Some ?f"
    by (simp add: static_reply_def static_world_def sample_request_sel)
  have r: "routes sample_world ?h = health"
    by (simp add: routes_def sample_request_sel)
  have t: "too_many dailyLimiter
       = \<lparr>status = 429,
          content = Json (JObj [(''error'', JStr ''Daily limit exceeded''),
            (''message'',
             JStr ''You have reached your daily generation limit. Please try again tomorrow.'')])\<rparr>"
    by (simp add: too_many_def dailyLimiter_def)
  have a1: "snd (app sample_world spent_stores ?g) = respond (too_many dailyLimiter)"
    using three_windows [where w = sample_world and S = spent_stores and req = ?g] s1 d e1
    by simp
  have a2: "snd (app sample_world no_stores ?h) = health"
    using three_windows [where w = sample_world and S = no_stores and req = ?h] s1 d e2 r
    by simp
  have a3: "app static_world spent_stores ?u = (spent_stores, respond ?f)"
    using three_windows [where w = static_world and S = spent_stores and req = ?u
        and found = ?f] s2
    by blast
  from a1 a2 a3 t show ?thesis by blast
qed

section \<open>The setting that disables the Rate Governor\<close>

lemma to_string_toggle [simp]:
  "to_string (w\<lparr>DISABLE_RATE_LIMIT := v\<rparr>) x = to_string w x"
  by (simp add: to_string_def split: jsval.split sum.split json_body.split fetch_reply.split option.split)

lemma stability_call_toggle [simp]:
  "stability_call (w\<lparr>DISABLE_RATE_LIMIT := v\<rparr>) p n = stability_call w p n"
  by (simp add: stability_call_def)

lemma api_error_toggle [simp]:
  "api_error (w\<lparr>DISABLE_RATE_LIMIT := v\<rparr>) b t = api_error w b t"
  by (simp add: api_error_def split: jsval.split sum.split json_body.split fetch_reply.split option.split)

lemma data_uris_toggle [simp]:
  "data_uris (w\<lparr>DISABLE_RATE_LIMIT := v\<rparr>) xs = data_uris w xs"
  by (induction xs) (simp_all split: jsval.split sum.split json_body.split fetch_reply.split option.split)

lemma call_map_toggle [simp]:
  "call_map (w\<lparr>DISABLE_RATE_LIMIT := v\<rparr>) x = call_map w x"
  by (cases x) simp_all

lemma read_images_toggle [simp]:
  "read_images (w\<lparr>DISABLE_RATE_LIMIT := v\<rparr>) r = read_images w r"
  by (simp add: read_images_def split: jsval.split sum.split json_body.split fetch_reply.split option.split)

lemma buffer_from_toggle [simp]:
  "buffer_from (w\<lparr>DISABLE_RATE_LIMIT := v\<rparr>) x = buffer_from w x"
  by (cases x) simp_all

lemma host_toggle [simp]:
  "host (w\<lparr>DISABLE_RATE_LIMIT := v\<rparr>) = host w"
  "uploadsDir (w\<lparr>DISABLE_RATE_LIMIT := v\<rparr>) = uploadsDir w"
  by (simp_all add: host_def port_text_def uploadsDir_def split: option.split)

lemma generate_toggle [simp]:
  "generate (w\<lparr>DISABLE_RATE_LIMIT := v\<rparr>) b = generate w b"
  by (simp add: generate_def split: jsval.split sum.split json_body.split fetch_reply.split option.split)

lemma save_image_toggle [simp]:
  "save_image (w\<lparr>DISABLE_RATE_LIMIT := v\<rparr>) b = save_image w b"
  by (simp add: save_image_def Let_def split: jsval.split sum.split json_body.split fetch_reply.split option.split)

lemma test_stability_toggle [simp]:
  "test_stability (w\<lparr>DISABLE_RATE_LIMIT := v\<rparr>) = test_stability w"
  by (simp add: test_stability_def Let_def split: jsval.split sum.split json_body.split fetch_reply.split option.split)

lemma routes_toggle: "routes (w\<lparr>DISABLE_RATE_LIMIT := v\<rparr>) req = routes w req"
  by (simp add: routes_def split: endpoint.split)

lemma static_toggle: "static_reply (w\<lparr>DISABLE_RATE_LIMIT := v\<rparr>) req = static_reply w req"
  by (simp add: static_reply_def split: endpoint.split)

text \<open>
  Claim C9. One setting, \<^verbatim>\<open>DISABLE_RATE_LIMIT=true\<close>, disables the Rate Governor entirely:
  with it no store is read or changed and every request goes to the static files and the
  routes, whatever the counters hold. It alters nothing else: a request that the limiters
  would let through has the same outcome with the setting, and neither the routes nor the
  static files depend on it.
\<close>

theorem disable_toggle:
  "(DISABLE_RATE_LIMIT w = Some ''true'' \<longrightarrow>
      app w S req = (S, case static_reply w req of Some r \<Rightarrow> respond r | None \<Rightarrow> routes w req))
   \<and> (snd (governor S req) = None \<longrightarrow>
      snd (app (w\<lparr>DISABLE_RATE_LIMIT := Some ''true''\<rparr>) S req) = snd (app w S req))
   \<and> routes (w\<lparr>DISABLE_RATE_LIMIT := v\<rparr>) req = routes w req
   \<and> static_reply (w\<lparr>DISABLE_RATE_LIMIT := v\<rparr>) req = static_reply w req"
proof (intro conjI impI)
  assume "DISABLE_RATE_LIMIT w = Some ''true''"
  then show "app w S req
             = (S, case static_reply w req of Some r \<Rightarrow> respond r | None \<Rightarrow> routes w req)"
    by (simp add: app_def split: option.splits)
next
  assume g: "snd (governor S req) = None"
  show "snd (app (w\<lparr>DISABLE_RATE_LIMIT := Some ''true''\<rparr>) S req) = snd (app w S req)"
    using g by (cases "governor S req")
      (simp add: app_def routes_toggle static_toggle split: option.splits)
next
  show "routes (w\<lparr>DISABLE_RATE_LIMIT := v\<rparr>) req = routes w req" by (rule routes_toggle)
next
  show "static_reply (w\<lparr>DISABLE_RATE_LIMIT := v\<rparr>) req = static_reply w req"
    by (rule static_toggle)
qed



theorem disable_toggle_witness:
  "app (sample_world\<lparr>DISABLE_RATE_LIMIT := Some ''true''\<rparr>) spent_stores
       (sample_request Health (JObj []) 1000) = (spent_stores, health)
   \<and> snd (app (sample_world\<lparr>DISABLE_RATE_LIMIT := Some ''true''\<rparr>) no_stores
            (sample_request Health (JObj []) 1000))
       = snd (app sample_world no_stores (sample_request Health (JObj []) 1000))"
proof -
  let ?h = "sample_request Health (JObj []) 1000"
  let ?w = "sample_world\<lparr>DISABLE_RATE_LIMIT := Some ''true''\<rparr>"
  have d: "DISABLE_RATE_LIMIT ?w = Some ''true''" by simp
  have s: "static_reply ?w ?h = None" by (simp add: static_reply_def sample_request_sel)
  have r: "routes ?w ?h = health" by (simp add: routes_def sample_request_sel)
  have g: "snd (governor no_stores ?h) = None"
    by (simp add: governor_verdict exhausted_def current_def opened_def no_stores_def limits_values)
  have a: "app ?w spent_stores ?h = (spent_stores, health)"
    using disable_toggle [where w = ?w and S = spent_stores and req = ?h] d s r by simp
  have b: "snd (app ?w no_stores ?h) = snd (app sample_world no_stores ?h)"
    using disable_toggle [where w = sample_world and S = no_stores and req = ?h] g by blast
  from a b show ?thesis by blast
qed


section \<open>Properties of the Generation Gateway\<close>

lemma moderate_sample_rejected:
  "moderateContent (JStr ''a Disney star'')
   = Inr \<lparr>allowed = False, reason = Some ''Prompt contains restricted words: star, disney''\<rparr>"
proof -
  have t: "toLowerCase ''a Disney star'' = ''a disney star''" by code_simp
  show ?thesis by (simp add: moderateContent_def t blacklist_def)
qed

lemma moderate_sample_allowed:
  "moderateContent (JStr ''a blue cat'') = Inr \<lparr>allowed = True, reason = None\<rparr>"
proof -
  have t: "toLowerCase ''a blue cat'' = ''a blue cat''" by code_simp
  show ?thesis by (simp add: moderateContent_def t blacklist_def)
qed

text \<open>
  The prompt \<^verbatim>\<open>a photo of Mickey Mouse\<close> holds none of the thirteen terms: the filter allows
  it, and the handler goes on to call the provider.
\<close>

lemma moderate_mickey_mouse:
  "moderateContent (JStr ''a photo of Mickey Mouse'') = Inr \<lparr>allowed = True, reason = None\<rparr>"
proof -
  have t: "toLowerCase ''a photo of Mickey Mouse'' = ''a photo of mickey mouse''" by code_simp
  show ?thesis by (simp add: moderateContent_def t blacklist_def)
qed


lemma moderation_reason:
  assumes "moderateContent prompt = Inr m" "\<not> allowed m"
  shows "\<exists>r. reason m = Some r"
  using assms
  by (auto simp add: moderateContent_def Let_def split: sum.splits if_splits)

lemma caught_status: "status (caught label e) = 500"
  by (simp add: caught_def status_json_def)

text \<open>
  Claim C5. For every prompt that the Moderation Filter rejects, \<^verbatim>\<open>POST /generate\<close> answers
  with status 400, the error \<^verbatim>\<open>Content not allowed\<close> and the filter's reason as message; no
  call of the provider is made; both servers answer alike; and the response is none of
  the limiters' rejections (status 429) and not the response of a \<^verbatim>\<open>catch\<close> block
  (status 500).
\<close>

theorem moderation_rejects:
  "get_prop b ''prompt'' = Inr prompt \<and> moderateContent prompt = Inr m \<and> \<not> allowed m \<longrightarrow>
     (\<exists>r. reason m = Some r
        \<and> reply (generate w b) =
            \<lparr>status = 400,
             content = Json (JObj [(''error'', JStr ''Content not allowed''), (''message'', JStr r)])\<rparr>)
     \<and> upstream (generate w b) = []
     \<and> generate_openai w b = generate w b
     \<and> reply (generate w b)
         \<notin> {too_many dailyLimiter, too_many hourlyLimiter, too_many burstLimiter, too_many limiter}
     \<and> (\<forall>label e. reply (generate w b) \<noteq> caught label e)"
proof
  assume a: "get_prop b ''prompt'' = Inr prompt \<and> moderateContent prompt = Inr m \<and> \<not> allowed m"
  then obtain r where r: "reason m = Some r" using moderation_reason by blast
  have g: "generate w b = respond (content_not_allowed m)"
    using a by (simp add: generate_def)
  have o: "generate_openai w b = respond (content_not_allowed m)"
    using a by (simp add: generate_openai_def)
  have c: "content_not_allowed m =
            \<lparr>status = 400,
             content = Json (JObj [(''error'', JStr ''Content not allowed''), (''message'', JStr r)])\<rparr>"
    using r by (simp add: content_not_allowed_def status_json_def)
  have s: "status (reply (generate w b)) = 400"
    unfolding g c by (simp add: respond_def)
  have d1: "reply (generate w b)
         \<notin> {too_many dailyLimiter, too_many hourlyLimiter, too_many burstLimiter, too_many limiter}"
  proof
    assume "reply (generate w b)
         \<in> {too_many dailyLimiter, too_many hourlyLimiter, too_many burstLimiter, too_many limiter}"
    then have "status (reply (generate w b)) = 429"
      by (auto simp add: too_many_def)
    with s show False by simp
  qed
  have d2: "\<forall>label e. reply (generate w b) \<noteq> caught label e"
  proof (intro allI notI)
    fix label e
    assume "reply (generate w b) = caught label e"
    then have "status (reply (generate w b)) = 500" by (simp add: caught_status)
    with s show False by simp
  qed
  show "(\<exists>r. reason m = Some r
        \<and> reply (generate w b) =
            \<lparr>status = 400,
             content = Json (JObj [(''error'', JStr ''Content not allowed''), (''message'', JStr r)])\<rparr>)
     \<and> upstream (generate w b) = []
     \<and> generate_openai w b = generate w b
     \<and> reply (generate w b)
         \<notin> {too_many dailyLimiter, too_many hourlyLimiter, too_many burstLimiter, too_many limiter}
     \<and> (\<forall>label e. reply (generate w b) \<noteq> caught label e)"
    using r g o c d1 d2 by (simp add: respond_def)
qed


theorem moderation_rejects_witness:
  "reply (generate sample_world (JObj [(''prompt'', JStr ''a Disney star'')]))
     = \<lparr>status = 400,
        content = Json (JObj [(''error'', JStr ''Content not allowed''),
                              (''message'', JStr ''Prompt contains restricted words: star, disney'')])\<rparr>
   \<and> upstream (generate sample_world (JObj [(''prompt'', JStr ''a Disney star'')])) = []
   \<and> generate_openai sample_world (JObj [(''prompt'', JStr ''a Disney star'')])
       = generate sample_world (JObj [(''prompt'', JStr ''a Disney star'')])"
proof -
  let ?b = "JObj [(''prompt'', JStr ''a Disney star'')]"
  let ?m = "\<lparr>allowed = False, reason = Some ''Prompt contains restricted words: star, disney''\<rparr>"
  have p: "get_prop ?b ''prompt'' = Inr (JStr ''a Disney star'')" by simp
  have n: "\<not> allowed ?m" by simp
  from moderation_rejects [where b = ?b and prompt = "JStr ''a Disney star''" and m = ?m
      and w = sample_world] p moderate_sample_rejected n
  show ?thesis by simp
qed










text \<open>
  Claim C4 against the code. A request to \<^verbatim>\<open>POST /generate\<close> without a prompt is not
  turned down as invalid input: on both servers the prompt goes to the filter unchecked,
  \<^verbatim>\<open>prompt.toLowerCase()\<close> throws, and the \<^verbatim>\<open>catch\<close> block answers 500. An empty prompt
  passes the filter and is sent to the provider.
\<close>

theorem generate_missing_prompt:
  "generate w (JObj [])
     = respond (caught ''Failed to generate image'' (cannot_read JUndefined ''toLowerCase''))
   \<and> generate_openai w (JObj []) = generate w (JObj [])
   \<and> status (reply (generate w (JObj []))) = 500
   \<and> upstream (generate w (JObj [(''prompt'', JStr [])]))
       = [Fetch (stability_call w (JStr []) 1)]
   \<and> upstream (generate_openai w (JObj [(''prompt'', JStr [])]))
       = [ImagesGenerate (dalle_call (JStr []))]"
proof -
  have m: "moderateContent JUndefined = Inl (cannot_read JUndefined ''toLowerCase'')"
    by (simp add: moderateContent_def)
  have e: "moderateContent (JStr []) = Inr \<lparr>allowed = True, reason = None\<rparr>"
    by (simp add: moderateContent_def toLowerCase_def blacklist_def)
  show ?thesis
    by (simp add: generate_def generate_openai_def m e caught_status respond_def Let_def)
qed


lemma sample_world_sel:
  "dirname sample_world = ''/srv/server''"
  "randomUUID sample_world = ''123e4567-e89b-42d3-a456-426614174000''"
  "writeFileSync sample_world = (\<lambda>p b. None)"
  "APP_URL sample_world = Some ''https://pins.example.com''"
  "base64_decode sample_world = (\<lambda>s. map (\<lambda>c. of_nat (of_char c)) s)"
  "fetch sample_world = (\<lambda>c. Responds True
       (Parsed (JObj [(''artifacts'', JArr [JObj [(''base64'', JStr ''iVBORw0KGgo='')]])])))"
  by (simp_all add: sample_world_def)


lemma data_uris_shape:
  assumes "data_uris w artifacts = Inr images"
  shows "\<exists>payloads. length payloads = length artifacts
           \<and> images = map image_entry payloads
           \<and> (\<forall>k < length artifacts. \<exists>p. get_prop (artifacts ! k) ''base64'' = Inr p
                                           \<and> to_string w p = Inr (payloads ! k))"
  using assms
proof (induction artifacts arbitrary: images)
  case Nil
  then show ?case by simp
next
  case (Cons a rest)
  from Cons.prems obtain p s more where
    p: "get_prop a ''base64'' = Inr p" and s: "to_string w p = Inr s"
    and more: "data_uris w rest = Inr more" and im: "images = image_entry s # more"
    by (auto split: sum.splits)
  from Cons.IH [OF more] obtain ps where
    ps: "length ps = length rest" "more = map image_entry ps"
    "\<forall>k < length rest. \<exists>p. get_prop (rest ! k) ''base64'' = Inr p \<and> to_string w p = Inr (ps ! k)"
    by blast
  have "\<forall>k < length (a # rest). \<exists>q. get_prop ((a # rest) ! k) ''base64'' = Inr q
                                    \<and> to_string w q = Inr ((s # ps) ! k)"
  proof (intro allI impI)
    fix k
    assume "k < length (a # rest)"
    then show "\<exists>q. get_prop ((a # rest) ! k) ''base64'' = Inr q \<and> to_string w q = Inr ((s # ps) ! k)"
      using p s ps(3) by (cases k) auto
  qed
  moreover have "length (s # ps) = length (a # rest)" using ps(1) by simp
  moreover have "images = map image_entry (s # ps)" using im ps(2) by simp
  ultimately show ?case by blast
qed

lemma read_images_success:
  assumes "read_images w r = Inr res"
  shows "\<exists>v artifacts images. r = Responds True (Parsed v)
           \<and> get_prop v ''artifacts'' = Inr (JArr artifacts) \<and> artifacts \<noteq> []
           \<and> data_uris w artifacts = Inr images
           \<and> res = json (JObj [(''success'', JBool True), (''images'', JArr images)])"
proof -
  from assms obtain v where r: "r = Responds True (Parsed v)"
    by (auto simp add: read_images_def split: fetch_reply.splits json_body.splits if_splits)
  from assms r obtain a where a: "get_prop v ''artifacts'' = Inr a"
    by (auto simp add: read_images_def split: sum.splits)
  from assms r a have nz: "truthy a" "get_prop a ''length'' \<noteq> Inr (JNum 0)"
    by (auto simp add: read_images_def split: if_splits)
  from assms r a nz obtain images where m: "call_map w a = Inr images"
    and res: "res = json (JObj [(''success'', JBool True), (''images'', JArr images)])"
    by (auto simp add: read_images_def split: sum.splits)
  from m obtain artifacts where arr: "a = JArr artifacts" by (cases a) simp_all
  have "artifacts \<noteq> []" using nz(2) arr by auto
  moreover have "data_uris w artifacts = Inr images" using m arr by simp
  ultimately show ?thesis using r a arr res by blast
qed

lemma generate_success:
  assumes "status (reply (generate w b)) = 200"
  shows "\<exists>prompt res. get_prop b ''prompt'' = Inr prompt
           \<and> read_images w (fetch w (stability_call w prompt 1)) = Inr res
           \<and> reply (generate w b) = res"
proof -
  from assms obtain prompt where p: "get_prop b ''prompt'' = Inr prompt"
    by (cases "get_prop b ''prompt''")
       (simp_all add: generate_def respond_def caught_def status_json_def)
  from assms p obtain m where m: "moderateContent prompt = Inr m"
    by (cases "moderateContent prompt")
       (simp_all add: generate_def respond_def caught_def status_json_def)
  from assms p m have al: "allowed m"
    by (cases "allowed m")
       (simp_all add: generate_def respond_def content_not_allowed_def status_json_def)
  from assms p m al obtain res where
    "read_images w (fetch w (stability_call w prompt 1)) = Inr res"
    by (cases "read_images w (fetch w (stability_call w prompt 1))")
       (simp_all add: generate_def Let_def caught_def status_json_def)
  then show ?thesis using p m al by (auto simp add: generate_def Let_def)
qed

lemma data_uris_entries:
  assumes "data_uris w artifacts = Inr images"
  shows "\<exists>payloads. length payloads = length artifacts
           \<and> images = map (\<lambda>p. JObj [(''imageUrl'', JStr (''data:image/png;base64,'' @ p))]) payloads
           \<and> (\<forall>k < length artifacts. \<exists>p. get_prop (artifacts ! k) ''base64'' = Inr p
                 \<and> (case p of JStr s \<Rightarrow> payloads ! k = s | _ \<Rightarrow> ToString w p = Inr (payloads ! k)))"
proof -
  from data_uris_shape [OF assms] obtain payloads where
    l: "length payloads = length artifacts" and im: "images = map image_entry payloads"
    and e: "\<forall>k < length artifacts. \<exists>p. get_prop (artifacts ! k) ''base64'' = Inr p
                                        \<and> to_string w p = Inr (payloads ! k)"
    by blast
  have "\<forall>k < length artifacts. \<exists>p. get_prop (artifacts ! k) ''base64'' = Inr p
                 \<and> (case p of JStr s \<Rightarrow> payloads ! k = s | _ \<Rightarrow> ToString w p = Inr (payloads ! k))"
  proof (intro allI impI)
    fix k assume "k < length artifacts"
    with e obtain p where p: "get_prop (artifacts ! k) ''base64'' = Inr p"
      "to_string w p = Inr (payloads ! k)" by blast
    have "case p of JStr s \<Rightarrow> payloads ! k = s | _ \<Rightarrow> ToString w p = Inr (payloads ! k)"
      using p(2) by (cases p) (simp_all add: to_string_def)
    with p(1) show "\<exists>p. get_prop (artifacts ! k) ''base64'' = Inr p
                 \<and> (case p of JStr s \<Rightarrow> payloads ! k = s | _ \<Rightarrow> ToString w p = Inr (payloads ! k))"
      by blast
  qed
  moreover have "images = map (\<lambda>p. JObj [(''imageUrl'', JStr (''data:image/png;base64,'' @ p))]) payloads"
    using im by (simp add: image_entry_def)
  ultimately show ?thesis using l by blast
qed


text \<open>
  Claim C10. On the Stability server, whenever \<^verbatim>\<open>POST /generate\<close> succeeds (status 200),
  the provider answered with a non-empty array of artifacts and the response holds the
  list \<^verbatim>\<open>images\<close> with exactly one entry per artifact, in order, each entry an object whose
  \<^verbatim>\<open>imageUrl\<close> is the text \<^verbatim>\<open>data:image/png;base64,\<close> followed by the artifact's \<^verbatim>\<open>base64\<close>:
  the payload itself when it is a string, its conversion to a string otherwise.
\<close>

theorem generate_images:
  "status (reply (generate w b)) = 200 \<longrightarrow>
     (\<exists>prompt v artifacts payloads.
        get_prop b ''prompt'' = Inr prompt
        \<and> fetch w (stability_call w prompt 1) = Responds True (Parsed v)
        \<and> get_prop v ''artifacts'' = Inr (JArr artifacts)
        \<and> artifacts \<noteq> []
        \<and> length payloads = length artifacts
        \<and> reply (generate w b)
            = \<lparr>status = 200,
               content = Json (JObj [(''success'', JBool True),
                 (''images'', JArr (map (\<lambda>p. JObj [(''imageUrl'',
                                  JStr (''data:image/png;base64,'' @ p))]) payloads))])\<rparr>
        \<and> (\<forall>k < length artifacts.
              \<exists>p. get_prop (artifacts ! k) ''base64'' = Inr p
                \<and> (case p of JStr s \<Rightarrow> payloads ! k = s
                    | _ \<Rightarrow> ToString w p = Inr (payloads ! k))))"
proof
  assume "status (reply (generate w b)) = 200"
  then obtain prompt res where p: "get_prop b ''prompt'' = Inr prompt"
    and r: "read_images w (fetch w (stability_call w prompt 1)) = Inr res"
    and g: "reply (generate w b) = res"
    using generate_success by blast
  from read_images_success [OF r] obtain v artifacts images where
    f: "fetch w (stability_call w prompt 1) = Responds True (Parsed v)"
    and a: "get_prop v ''artifacts'' = Inr (JArr artifacts)" "artifacts \<noteq> []"
    and d: "data_uris w artifacts = Inr images"
    and res: "res = json (JObj [(''success'', JBool True), (''images'', JArr images)])"
    by blast
  from data_uris_entries [OF d] obtain payloads where
    l: "length payloads = length artifacts"
    and im: "images = map (\<lambda>p. JObj [(''imageUrl'', JStr (''data:image/png;base64,'' @ p))]) payloads"
    and e: "\<forall>k < length artifacts. \<exists>p. get_prop (artifacts ! k) ''base64'' = Inr p
                 \<and> (case p of JStr s \<Rightarrow> payloads ! k = s | _ \<Rightarrow> ToString w p = Inr (payloads ! k))"
    by blast
  have rr: "reply (generate w b)
            = \<lparr>status = 200,
               content = Json (JObj [(''success'', JBool True),
                 (''images'', JArr (map (\<lambda>p. JObj [(''imageUrl'',
                                  JStr (''data:image/png;base64,'' @ p))]) payloads))])\<rparr>"
    unfolding g res im by (simp add: json_def)
  show "\<exists>prompt v artifacts payloads.
        get_prop b ''prompt'' = Inr prompt
        \<and> fetch w (stability_call w prompt 1) = Responds True (Parsed v)
        \<and> get_prop v ''artifacts'' = Inr (JArr artifacts)
        \<and> artifacts \<noteq> []
        \<and> length payloads = length artifacts
        \<and> reply (generate w b)
            = \<lparr>status = 200,
               content = Json (JObj [(''success'', JBool True),
                 (''images'', JArr (map (\<lambda>p. JObj [(''imageUrl'',
                                  JStr (''data:image/png;base64,'' @ p))]) payloads))])\<rparr>
        \<and> (\<forall>k < length artifacts.
              \<exists>p. get_prop (artifacts ! k) ''base64'' = Inr p
                \<and> (case p of JStr s \<Rightarrow> payloads ! k = s
                    | _ \<Rightarrow> ToString w p = Inr (payloads ! k)))"
    using p f a l rr e by blast
qed


theorem generate_images_witness:
  "reply (generate sample_world (JObj [(''prompt'', JStr ''a blue cat'')]))
     = \<lparr>status = 200,
        content = Json (JObj [(''success'', JBool True),
          (''images'', JArr [JObj [(''imageUrl'', JStr ''data:image/png;base64,iVBORw0KGgo='')]])])\<rparr>"
proof -
  let ?b = "JObj [(''prompt'', JStr ''a blue cat'')]"
  note m = moderate_sample_allowed
  have st: "status (reply (generate sample_world ?b)) = 200"
    by (simp add: generate_def m Let_def read_images_def sample_world_sel to_string_def json_def)
  from generate_images [where w = sample_world and b = ?b] st
  obtain prompt v artifacts payloads where
    f: "fetch sample_world (stability_call sample_world prompt 1) = Responds True (Parsed v)"
    and a: "get_prop v ''artifacts'' = Inr (JArr artifacts)"
    and l: "length payloads = length artifacts"
    and r: "reply (generate sample_world ?b)
            = \<lparr>status = 200,
               content = Json (JObj [(''success'', JBool True),
                 (''images'', JArr (map (\<lambda>p. JObj [(''imageUrl'',
                                  JStr (''data:image/png;base64,'' @ p))]) payloads))])\<rparr>"
    and s: "\<forall>k < length artifacts.
              \<exists>p. get_prop (artifacts ! k) ''base64'' = Inr p
                \<and> (case p of JStr s \<Rightarrow> payloads ! k = s
                    | _ \<Rightarrow> ToString sample_world p = Inr (payloads ! k))"
    by blast
  from f have v: "v = JObj [(''artifacts'', JArr [JObj [(''base64'', JStr ''iVBORw0KGgo='')]])]"
    by (simp add: sample_world_sel)
  from a v have ar: "artifacts = [JObj [(''base64'', JStr ''iVBORw0KGgo='')]]" by simp
  from l ar have l1: "length payloads = 1" by simp
  from s ar have p0: "payloads ! 0 = ''iVBORw0KGgo=''" by simp
  from l1 p0 have "payloads = [''iVBORw0KGgo='']"
    by (cases payloads) simp_all
  with r show ?thesis by simp
qed


section \<open>Properties of the Image Store\<close>

lemma split_from_none:
  assumes "\<not> includes_str s sep" "sep \<noteq> []"
  shows "split_from sep piece s = [piece @ s]"
  using assms
proof (induction s arbitrary: piece)
  case Nil
  show ?case by simp
next
  case (Cons c cs)
  then have "\<not> prefix sep (c # cs)" "\<not> includes_str cs sep" by simp_all
  then show ?case using Cons.IH [of "piece @ [c]"] Cons.prems(2) by simp
qed

lemma prefix_shorter:
  assumes "prefix xs (ys @ zs)" "length xs \<le> length ys"
  shows "prefix xs ys"
  using assms by (metis prefix_length_prefix prefix_def)

lemma split_from_first:
  assumes "\<not> includes_str (pre @ butlast sep) sep" "sep \<noteq> []"
  shows "split_from sep piece (pre @ sep @ rest) = (piece @ pre) # split_from sep [] rest"
  using assms
proof (induction pre arbitrary: piece)
  case Nil
  obtain c cs where sep: "sep = c # cs" using Nil.prems(2) by (cases sep) auto
  show ?case by (simp add: sep)
next
  case (Cons p ps)
  have no: "\<not> prefix sep (p # ps @ butlast sep)" and later: "\<not> includes_str (ps @ butlast sep) sep"
    using Cons.prems(1) by simp_all
  have "\<not> prefix sep ((p # ps) @ sep @ rest)"
  proof
    assume "prefix sep ((p # ps) @ sep @ rest)"
    moreover have "sep @ rest = butlast sep @ last sep # rest"
      using Cons.prems(2) by (metis append.assoc append_Cons append_Nil append_butlast_last_id)
    ultimately have "prefix sep ((p # ps @ butlast sep) @ (last sep # rest))"
      by simp
    moreover have "length sep \<le> length (p # ps @ butlast sep)" by simp
    ultimately have "prefix sep (p # ps @ butlast sep)" by (rule prefix_shorter)
    with no show False by simp
  qed
  then show ?case using Cons.IH [OF later Cons.prems(2), of "piece @ [p]"] by simp
qed

lemma includes_middle: "includes_str (pre @ sep @ rest) sep"
proof -
  have "take (length sep) (drop (length pre) (pre @ sep @ rest)) = sep" by simp
  moreover have "length pre \<in> {0..length (pre @ sep @ rest)}" by simp
  ultimately show ?thesis unfolding includes_str_iff by blast
qed

lemma extract_plain:
  assumes "\<not> includes_str s marker"
  shows "extract_base64 (JStr s) = Inr (JStr s)"
  using assms by simp

lemma extract_once:
  assumes "\<not> includes_str (pre @ butlast marker) marker" "\<not> includes_str rest marker"
  shows "extract_base64 (JStr (pre @ marker @ rest)) = Inr (JStr rest)"
proof -
  have ne: "marker \<noteq> []" by (simp add: marker_def)
  have "split_from marker [] (pre @ marker @ rest) = pre # split_from marker [] rest"
    using split_from_first [OF assms(1) ne, of "[]" rest] by simp
  also have "\<dots> = [pre, rest]"
    using split_from_none [OF assms(2) ne, of "[]"] by simp
  finally have "split_str (pre @ marker @ rest) marker = [pre, rest]"
    using ne by (simp add: split_str_def)
  then show ?thesis using includes_middle [of pre marker rest] by (simp add: second_def)
qed

lemma save_image_400:
  "status (reply (save_image w b)) = 400
   \<longleftrightarrow> (\<exists>v. get_prop b ''imageData'' = Inr v \<and> \<not> truthy v)"
  by (auto simp add: save_image_def respond_def caught_def status_json_def json_def Let_def
      split: sum.splits option.splits)

lemma save_image_string:
  assumes "get_prop b ''imageData'' = Inr (JStr s)" "s \<noteq> []"
    "extract_base64 (JStr s) = Inr (JStr t)"
    "writeFileSync w (dirname w @ ''/uploads/'' @ randomUUID w @ ''.png'') (base64_decode w t) = None"
  shows "save_image w b = stored w t"
  using assms by (simp add: save_image_def stored_def uploadsDir_def Let_def del: extract_base64.simps)

text \<open>
  Claim C8, as amended. \<^verbatim>\<open>POST /save-image\<close> answers 400 exactly when no image data is
  supplied (the body has no \<^verbatim>\<open>imageData\<close>, or a falsy one such as the empty string). For a
  string payload without the marker \<^verbatim>\<open>base64,\<close> the payload itself is decoded; for a
  string payload that holds the marker once (no marker starts before it and none follows
  it), the text after the marker is decoded. In both
  cases, when the write succeeds, the decoded bytes are written to the file
  \<^verbatim>\<open><uuid>.png\<close> of the uploads directory and the returned URL is the public base (the
  variable \<^verbatim>\<open>APP_URL\<close> when it is set, the local host and port when it is not) followed by
  \<^verbatim>\<open>/uploads/<uuid>.png\<close>.
\<close>

theorem save_image_stores:
  "(status (reply (save_image w b)) = 400
      \<longleftrightarrow> (\<exists>v. get_prop b ''imageData'' = Inr v \<and> \<not> truthy v))
   \<and> (get_prop b ''imageData'' = Inr (JStr s) \<and> s \<noteq> [] \<and> \<not> includes_str s marker
       \<and> writeFileSync w (dirname w @ ''/uploads/'' @ randomUUID w @ ''.png'')
            (base64_decode w s) = None \<longrightarrow>
      reply (save_image w b)
        = json (JObj [(''success'', JBool True),
                      (''imageUrl'', JStr (host w @ ''/uploads/'' @ randomUUID w @ ''.png''))])
      \<and> written (save_image w b)
        = [(dirname w @ ''/uploads/'' @ randomUUID w @ ''.png'', base64_decode w s)])
   \<and> (get_prop b ''imageData'' = Inr (JStr (pre @ marker @ rest))
       \<and> \<not> includes_str (pre @ butlast marker) marker \<and> \<not> includes_str rest marker
       \<and> writeFileSync w (dirname w @ ''/uploads/'' @ randomUUID w @ ''.png'')
            (base64_decode w rest) = None \<longrightarrow>
      reply (save_image w b)
        = json (JObj [(''success'', JBool True),
                      (''imageUrl'', JStr (host w @ ''/uploads/'' @ randomUUID w @ ''.png''))])
      \<and> written (save_image w b)
        = [(dirname w @ ''/uploads/'' @ randomUUID w @ ''.png'', base64_decode w rest)])
   \<and> (APP_URL w = Some u \<and> u \<noteq> [] \<longrightarrow> host w = u)
   \<and> (APP_URL w = None \<longrightarrow> host w = ''http://localhost:'' @ port_text w)"
proof (intro conjI impI)
  show "status (reply (save_image w b)) = 400
      \<longleftrightarrow> (\<exists>v. get_prop b ''imageData'' = Inr v \<and> \<not> truthy v)"
    by (rule save_image_400)
next
  assume a: "get_prop b ''imageData'' = Inr (JStr s) \<and> s \<noteq> [] \<and> \<not> includes_str s marker
       \<and> writeFileSync w (dirname w @ ''/uploads/'' @ randomUUID w @ ''.png'')
            (base64_decode w s) = None"
  then have "save_image w b = stored w s"
    using save_image_string [of b s s w] extract_plain [of s] by blast
  then show "reply (save_image w b)
        = json (JObj [(''success'', JBool True),
                      (''imageUrl'', JStr (host w @ ''/uploads/'' @ randomUUID w @ ''.png''))])"
    and "written (save_image w b)
        = [(dirname w @ ''/uploads/'' @ randomUUID w @ ''.png'', base64_decode w s)]"
    by (simp_all add: stored_def)
next
  assume a: "get_prop b ''imageData'' = Inr (JStr (pre @ marker @ rest))
       \<and> \<not> includes_str (pre @ butlast marker) marker \<and> \<not> includes_str rest marker
       \<and> writeFileSync w (dirname w @ ''/uploads/'' @ randomUUID w @ ''.png'')
            (base64_decode w rest) = None"
  have "pre @ marker @ rest \<noteq> []" by (simp add: marker_def)
  then have "save_image w b = stored w rest"
    using a save_image_string [of b "pre @ marker @ rest" rest w] extract_once [of pre rest]
    by blast
  then show "reply (save_image w b)
        = json (JObj [(''success'', JBool True),
                      (''imageUrl'', JStr (host w @ ''/uploads/'' @ randomUUID w @ ''.png''))])"
    and "written (save_image w b)
        = [(dirname w @ ''/uploads/'' @ randomUUID w @ ''.png'', base64_decode w rest)]"
    by (simp_all add: stored_def)
next
  assume "APP_URL w = Some u \<and> u \<noteq> []"
  then show "host w = u" by (simp add: host_def)
next
  assume "APP_URL w = None"
  then show "host w = ''http://localhost:'' @ port_text w" by (simp add: host_def)
qed


text \<open>
  Claim C8 as stated fails for a payload that holds the marker twice: the handler takes
  the second piece of \<^verbatim>\<open>imageData.split('base64,')\<close>, which is the text between the first two
  markers, so what is decoded and written is neither the payload without its prefix up to
  the first marker nor the payload without its prefix up to the last. It also fails for a
  supplied payload that is not a string, such as a number: nothing is written and the
  answer is that of the \<^verbatim>\<open>catch\<close> block.
\<close>

theorem save_image_counterexample:
  "extract_base64 (JStr ''data:image/png;base64,AAAAbase64,BBBB'') = Inr (JStr ''AAAA'')
   \<and> written (save_image sample_world
                 (JObj [(''imageData'', JStr ''data:image/png;base64,AAAAbase64,BBBB'')]))
       = [(''/srv/server/uploads/123e4567-e89b-42d3-a456-426614174000.png'',
           base64_decode sample_world ''AAAA'')]
   \<and> base64_decode sample_world ''AAAA'' \<noteq> base64_decode sample_world ''AAAAbase64,BBBB''
   \<and> base64_decode sample_world ''AAAA'' \<noteq> base64_decode sample_world ''BBBB''
   \<and> save_image sample_world (JObj [(''imageData'', JNum 5)])
       = respond (caught ''Failed to save image'' (not_a_function ''imageData.includes''))"
proof -
  have e: "extract_base64 (JStr ''data:image/png;base64,AAAAbase64,BBBB'') = Inr (JStr ''AAAA'')"
    by (simp add: marker_def split_str_def second_def)
  have w: "written (save_image sample_world
                 (JObj [(''imageData'', JStr ''data:image/png;base64,AAAAbase64,BBBB'')]))
       = [(''/srv/server/uploads/123e4567-e89b-42d3-a456-426614174000.png'',
           base64_decode sample_world ''AAAA'')]"
    by (simp add: save_image_def e uploadsDir_def sample_world_sel Let_def
        del: extract_base64.simps)
  have d: "base64_decode sample_world ''AAAA'' \<noteq> base64_decode sample_world ''AAAAbase64,BBBB''"
    "base64_decode sample_world ''AAAA'' \<noteq> base64_decode sample_world ''BBBB''"
    by (simp_all add: sample_world_sel)
  have n: "save_image sample_world (JObj [(''imageData'', JNum 5)])
       = respond (caught ''Failed to save image'' (not_a_function ''imageData.includes''))"
    by (simp add: save_image_def)
  from e w d n show ?thesis by blast
qed



theorem save_image_stores_witness:
  "status (reply (save_image sample_world (JObj []))) = 400
   \<and> written (save_image sample_world (JObj [(''imageData'', JStr ''iVBORw0KGgo='')]))
       = [(''/srv/server/uploads/123e4567-e89b-42d3-a456-426614174000.png'',
           base64_decode sample_world ''iVBORw0KGgo='')]
   \<and> written (save_image sample_world
                 (JObj [(''imageData'', JStr ''data:image/png;base64,iVBORw0KGgo='')]))
       = [(''/srv/server/uploads/123e4567-e89b-42d3-a456-426614174000.png'',
           base64_decode sample_world ''iVBORw0KGgo='')]
   \<and> reply (save_image sample_world
               (JObj [(''imageData'', JStr ''data:image/png;base64,iVBORw0KGgo='')]))
       = json (JObj [(''success'', JBool True),
            (''imageUrl'',
             JStr ''https://pins.example.com/uploads/123e4567-e89b-42d3-a456-426614174000.png'')])"
proof -
  let ?raw = "JObj [(''imageData'', JStr ''iVBORw0KGgo='')]"
  let ?uri = "JObj [(''imageData'', JStr ''data:image/png;base64,iVBORw0KGgo='')]"
  have n: "\<exists>v. get_prop (JObj []) ''imageData'' = Inr v \<and> \<not> truthy v" by simp
  have a1: "status (reply (save_image sample_world (JObj []))) = 400"
    using save_image_stores [where w = sample_world and b = "JObj []"] n by blast
  have h: "host sample_world = ''https://pins.example.com''"
    using save_image_stores [where w = sample_world and u = "''https://pins.example.com''"]
    by (simp add: sample_world_sel)
  have r: "get_prop ?raw ''imageData'' = Inr (JStr ''iVBORw0KGgo='')"
    "''iVBORw0KGgo='' \<noteq> []" "\<not> includes_str ''iVBORw0KGgo='' marker"
    by (simp_all add: marker_def)
  have a2: "written (save_image sample_world ?raw)
       = [(''/srv/server/uploads/123e4567-e89b-42d3-a456-426614174000.png'',
           base64_decode sample_world ''iVBORw0KGgo='')]"
    using save_image_stores [where w = sample_world and b = ?raw and s = "''iVBORw0KGgo=''"] r
    by (simp add: sample_world_sel)
  have u: "get_prop ?uri ''imageData'' = Inr (JStr (''data:image/png;'' @ marker @ ''iVBORw0KGgo=''))"
    "\<not> includes_str (''data:image/png;'' @ butlast marker) marker"
    "\<not> includes_str ''iVBORw0KGgo='' marker"
    by (simp_all add: marker_def)
  have a3: "reply (save_image sample_world ?uri)
        = json (JObj [(''success'', JBool True),
             (''imageUrl'', JStr (host sample_world @ ''/uploads/''
                                  @ randomUUID sample_world @ ''.png''))])
      \<and> written (save_image sample_world ?uri)
        = [(dirname sample_world @ ''/uploads/'' @ randomUUID sample_world @ ''.png'',
            base64_decode sample_world ''iVBORw0KGgo='')]"
    using save_image_stores [where w = sample_world and b = ?uri and pre = "''data:image/png;''"
        and rest = "''iVBORw0KGgo=''"] u
    by (simp add: sample_world_sel)
  from a1 a2 a3 show ?thesis unfolding h by (simp add: sample_world_sel)
qed


end
